theory Spec2Isabelle
  imports Complex_Main
begin

section \<open>The contributors badge service (server.js, version 2.0.0)\<close>

text \<open>
  The service answers HTTP requests by fetching a repository's contributor list from the
  hosting API, keeping it in an in-memory cache for five minutes, and rendering it as an
  SVG badge. This theory embeds the second (avatar inlining) revision of the server:
  the helpers \<open>getBase64Avatar\<close>, \<open>generateAvatarPattern\<close>, \<open>getContributors\<close>,
  \<open>getAllContributors\<close>, \<open>generateSVGBadge\<close> and the route handlers \<open>/badge\<close>,
  \<open>/badge/all\<close>, \<open>/badge/fast\<close>, \<open>/stats\<close> and \<open>/repo-info\<close>.

  Modelling decisions.
  \<^item> The process state (the \<open>cache\<close> map and the clock read by \<open>Date.now()\<close>) is a record
    that every function takes and returns. The record also carries a trace: the cache
    accesses, upstream requests and renderer calls performed so far, oldest first.
  \<^item> The upstream is a parameter. Its answer may depend on the request and on the number of
    effects performed before it, so it may answer the same request differently each time.
  \<^item> A thrown \<open>Error\<close> is the left injection of a sum.
  \<^item> A string is the sequence of its UTF-16 code units, one \<open>char\<close> each. The model has
    the code units 0 to 255, that is the strings of ASCII and Latin-1 characters;
    \<open>CHR 0xA0\<close> is the no-break space and \<open>CHR 0xE9\<close> the letter e with acute accent.
  \<^item> A successful upstream answer carries a JSON array of contributor objects; the numbers
    of the layout arithmetic are exact (they are small integers and their quotients).
\<close>

subsection \<open>Strings and numbers of the host language\<close>

definition digits10 :: string where
  "digits10 = ''0123456789''"

text \<open>Decimal rendering of a number inside a template literal.\<close>

fun decimal :: "nat \<Rightarrow> string" where
  "decimal n =
     (if 10 \<le> n then decimal (n div 10) @ [digits10 ! (n mod 10)]
      else [digits10 ! n])"

declare decimal.simps [simp del]

text \<open>A number that may be negative: the sign, then the digits of the magnitude.\<close>

definition number_text :: "int \<Rightarrow> string" where
  "number_text i = (if 0 \<le> i then decimal (nat i) else CHR ''-'' # decimal (nat (- i)))"

definition boolean_text :: "bool \<Rightarrow> string" where
  "boolean_text b = (if b then ''true'' else ''false'')"

text \<open>\<open>String.prototype.split\<close> with a one-character separator.\<close>

fun split_acc :: "char \<Rightarrow> string \<Rightarrow> string \<Rightarrow> string list" where
  "split_acc sep cur [] = [rev cur]"
| "split_acc sep cur (c # cs) =
     (if c = sep then rev cur # split_acc sep [] cs else split_acc sep (c # cur) cs)"

definition split :: "string \<Rightarrow> char \<Rightarrow> string list" where
  "split s sep = split_acc sep [] s"

text \<open>\<open>String.prototype.includes\<close> with a one-character needle.\<close>

definition str_includes :: "string \<Rightarrow> char \<Rightarrow> bool" where
  "str_includes s c \<longleftrightarrow> c \<in> set s"

text \<open>
  \<open>String.prototype.toUpperCase\<close>. Among the code units 0 to 255 the letters with a
  capital are \<open>a\<close> to \<open>z\<close>, the Latin-1 letters \<open>0xE0\<close> to \<open>0xFE\<close> without the division
  sign \<open>0xF7\<close> (their capitals stand 32 places lower), the sharp s \<open>0xDF\<close>, whose capital
  is the two letters \<open>SS\<close>, and the micro sign \<open>0xB5\<close> and the y with diaeresis \<open>0xFF\<close>,
  whose capitals are U+039C and U+0178. These last two capitals are not strings of the
  model: \<open>upper_in_latin1\<close> tells the strings without these two letters, and only on them
  is \<open>toUpperCase\<close> the function of the host. Every other code unit is kept.
\<close>

definition lower_letters :: string where
  "lower_letters =
     ''abcdefghijklmnopqrstuvwxyz'' @
     [CHR 0xE0, CHR 0xE1, CHR 0xE2, CHR 0xE3, CHR 0xE4, CHR 0xE5, CHR 0xE6, CHR 0xE7,
      CHR 0xE8, CHR 0xE9, CHR 0xEA, CHR 0xEB, CHR 0xEC, CHR 0xED, CHR 0xEE, CHR 0xEF,
      CHR 0xF0, CHR 0xF1, CHR 0xF2, CHR 0xF3, CHR 0xF4, CHR 0xF5, CHR 0xF6,
      CHR 0xF8, CHR 0xF9, CHR 0xFA, CHR 0xFB, CHR 0xFC, CHR 0xFD, CHR 0xFE]"

definition capital_letters :: string where
  "capital_letters =
     ''ABCDEFGHIJKLMNOPQRSTUVWXYZ'' @
     [CHR 0xC0, CHR 0xC1, CHR 0xC2, CHR 0xC3, CHR 0xC4, CHR 0xC5, CHR 0xC6, CHR 0xC7,
      CHR 0xC8, CHR 0xC9, CHR 0xCA, CHR 0xCB, CHR 0xCC, CHR 0xCD, CHR 0xCE, CHR 0xCF,
      CHR 0xD0, CHR 0xD1, CHR 0xD2, CHR 0xD3, CHR 0xD4, CHR 0xD5, CHR 0xD6,
      CHR 0xD8, CHR 0xD9, CHR 0xDA, CHR 0xDB, CHR 0xDC, CHR 0xDD, CHR 0xDE]"

definition upper_char :: "char \<Rightarrow> string" where
  "upper_char c =
     (if c = CHR 0xDF then ''SS''
      else case map_of (zip lower_letters capital_letters) c of
             Some u \<Rightarrow> [u]
           | None \<Rightarrow> [c])"

definition toUpperCase :: "string \<Rightarrow> string" where
  "toUpperCase s = concat (map upper_char s)"

definition upper_in_latin1 :: "string \<Rightarrow> bool" where
  "upper_in_latin1 s \<longleftrightarrow> CHR 0xB5 \<notin> set s \<and> CHR 0xFF \<notin> set s"

text \<open>\<open>s.charAt(0)\<close>: the first character as a string, the empty string when there is none.\<close>

definition charAt0 :: "string \<Rightarrow> string" where
  "charAt0 s = take 1 s"

text \<open>
  The built-in \<open>parseInt(string)\<close> with no radix: leading white space is skipped, a sign is
  read, a \<open>0x\<close> or \<open>0X\<close> prefix selects radix 16, and the longest run of digits of the radix
  is the value. \<open>None\<close> is \<open>NaN\<close> (no digit was read). Trailing text is ignored.

  The white space that is skipped is the host's \<open>WhiteSpace\<close> and \<open>LineTerminator\<close>. Among
  the code units 0 to 255 these are the space, TAB, LF, VT, FF, CR and the no-break space
  \<open>0xA0\<close>; the others (U+1680, U+2000 to U+200A, U+2028, U+2029, U+202F, U+205F, U+3000 and
  U+FEFF) lie above 255.
\<close>

definition isWhiteSpace :: "char \<Rightarrow> bool" where
  "isWhiteSpace c \<longleftrightarrow>
     c \<in> set [CHR '' '', CHR 0x09, CHR 0x0A, CHR 0x0B, CHR 0x0C, CHR 0x0D, CHR 0xA0]"

definition digit_value :: "char \<Rightarrow> nat option" where
  "digit_value c =
     map_of (zip ''0123456789abcdefABCDEF''
                 [0, 1, 2, 3, 4, 5, 6, 7, 8, 9, 10, 11, 12, 13, 14, 15, 10, 11, 12, 13, 14, 15]) c"

definition is_digit :: "nat \<Rightarrow> char \<Rightarrow> bool" where
  "is_digit radix c = (case digit_value c of Some v \<Rightarrow> v < radix | None \<Rightarrow> False)"

definition digits_value :: "nat \<Rightarrow> string \<Rightarrow> nat" where
  "digits_value radix z =
     foldl (\<lambda>a c. a * radix + (case digit_value c of Some v \<Rightarrow> v | None \<Rightarrow> 0)) 0 z"

definition strip_sign :: "string \<Rightarrow> int \<times> string" where
  "strip_sign s =
     (case s of
        [] \<Rightarrow> (1, s)
      | c # r \<Rightarrow> if c = CHR ''-'' then (- 1, r) else if c = CHR ''+'' then (1, r) else (1, s))"

definition strip_radix :: "string \<Rightarrow> nat \<times> string" where
  "strip_radix s =
     (if take 2 s = ''0x'' \<or> take 2 s = ''0X'' then (16, drop 2 s) else (10, s))"

definition parseInt :: "string \<Rightarrow> int option" where
  "parseInt input =
     (let (sign, s1) = strip_sign (dropWhile isWhiteSpace input);
          (radix, s2) = strip_radix s1;
          z = takeWhile (is_digit radix) s2
      in if z = [] then None else Some (sign * int (digits_value radix z)))"

subsection \<open>Data model\<close>

text \<open>One item of the upstream's contributor array.\<close>

record raw_contributor =
  raw_login :: string
  raw_avatar_url :: string
  raw_html_url :: string
  raw_contributions :: nat

text \<open>The result of \<open>generateAvatarPattern\<close>.\<close>

record fallback_pattern =
  color :: string
  initial :: string
  patternId :: string

text \<open>A contributor as the helpers return it; \<open>avatar_base64 = None\<close> is \<open>null\<close>.\<close>

record contributor =
  login :: string
  avatar_url :: string
  avatar_base64 :: "string option"
  html_url :: string
  contributions :: nat
  fallback :: fallback_pattern

record cache_entry =
  data :: "contributor list"
  timestamp :: int

text \<open>What \<open>error.response?.status\<close> reads from a failed request.\<close>

datatype api_failure = NoResponse | HttpStatus nat

text \<open>
  The avatar request either fails or yields the \<open>content-type\<close> header (absent: \<open>None\<close>)
  and the base64 text of the body.
\<close>

datatype avatar_response = AvatarFailed | AvatarOk "string option" string

record repo_data =
  rd_name :: string
  rd_full_name :: string
  rd_description :: string
  rd_stars :: nat
  rd_forks :: nat
  rd_language :: string
  rd_created_at :: string
  rd_updated_at :: string
  rd_html_url :: string

datatype event =
    CacheGet string
  | CacheSet string
  | ContributorsRequest string int "nat option"
  | AvatarRequest string
  | RepoRequest string
  | Render "contributor list" string string

record world =
  cache :: "string \<rightharpoonup> cache_entry"
  now :: int
  trace :: "event list"

text \<open>
  The upstream. The first argument of each function is the number of effects in the trace
  when the request is issued. \<open>latency k\<close> is the number of milliseconds by which the clock
  advances between the effect before request \<open>k\<close> and the arrival of its answer. For a
  request that is awaited alone this is the time the request takes; the avatar requests
  that one \<open>Promise.all\<close> joins are in flight together, and for them the advances add up to
  the time the join takes.
  \<open>contributors_api k repo per_page page\<close> answers
  \<open>GET /repos/<repo>/contributors?per_page=..&page=..\<close>.
\<close>

record upstream =
  contributors_api :: "nat \<Rightarrow> string \<Rightarrow> int \<Rightarrow> nat option \<Rightarrow> api_failure + raw_contributor list"
  avatar_api :: "nat \<Rightarrow> string \<Rightarrow> avatar_response"
  repo_api :: "nat \<Rightarrow> string \<Rightarrow> api_failure + repo_data"
  latency :: "nat \<Rightarrow> nat"

definition CACHE_DURATION :: int where
  "CACHE_DURATION = 5 * 60 * 1000"

text \<open>An awaited request: it is appended to the trace and the clock advances.\<close>

definition performed :: "upstream \<Rightarrow> event \<Rightarrow> world \<Rightarrow> world" where
  "performed up e w =
     w\<lparr>trace := trace w @ [e], now := now w + int (latency up (length (trace w)))\<rparr>"

definition logged :: "event \<Rightarrow> world \<Rightarrow> world" where
  "logged e w = w\<lparr>trace := trace w @ [e]\<rparr>"

definition sleep :: "nat \<Rightarrow> world \<Rightarrow> world" where
  "sleep ms w = w\<lparr>now := now w + int ms\<rparr>"

subsection \<open>Helpers\<close>

text \<open>
  \<open>getBase64Avatar\<close>: the avatar is requested; on success the result is the data URI built
  from the content type (default \<open>image/png\<close>) and the base64 text, on any failure the
  warning is logged and the result is \<open>null\<close>.
\<close>

definition data_uri :: "avatar_response \<Rightarrow> string option" where
  "data_uri response =
     (case response of
        AvatarOk header base64 \<Rightarrow>
          (let contentType =
                 (case header of
                    None \<Rightarrow> ''image/png''
                  | Some h \<Rightarrow> if h = [] then ''image/png'' else h)
           in Some (''data:'' @ contentType @ '';base64,'' @ base64))
      | AvatarFailed \<Rightarrow> None)"

definition getBase64Avatar :: "upstream \<Rightarrow> world \<Rightarrow> string \<Rightarrow> string option \<times> world" where
  "getBase64Avatar up w avatarUrl =
     (data_uri (avatar_api up (length (trace w)) avatarUrl),
      performed up (AvatarRequest avatarUrl) w)"

definition colors :: "string list" where
  "colors =
     [''#FF6B6B'', ''#4ECDC4'', ''#45B7D1'', ''#96CEB4'', ''#FFEAA7'',
      ''#DDA0DD'', ''#98D8C8'', ''#FFB6C1'', ''#87CEEB'', ''#DEB887'',
      ''#F0E68C'', ''#FFE4B5'', ''#D3D3D3'', ''#B0C4DE'', ''#FFA07A'']"

definition generateAvatarPattern :: "string \<Rightarrow> nat \<Rightarrow> fallback_pattern" where
  "generateAvatarPattern username index =
     \<lparr>color = colors ! (index mod length colors),
      initial = toUpperCase (charAt0 username),
      patternId = ''pattern-'' @ decimal index\<rparr>"

text \<open>The four errors the two fetching helpers throw, by their messages.\<close>

datatype fetch_error =
    RepositoryNotFound      \<comment> \<open>\<open>Repository not found\<close>\<close>
  | RateLimitExceeded       \<comment> \<open>\<open>API rate limit exceeded\<close>\<close>
  | AuthenticationFailed    \<comment> \<open>\<open>Authentication failed\<close>\<close>
  | FailedToFetch           \<comment> \<open>\<open>Failed to fetch contributors\<close>\<close>

text \<open>The \<open>catch\<close> block shared by \<open>getContributors\<close> and \<open>getAllContributors\<close>.\<close>

definition classify :: "api_failure \<Rightarrow> fetch_error" where
  "classify f =
     (if f = HttpStatus 404 then RepositoryNotFound
      else if f = HttpStatus 403 then RateLimitExceeded
      else if f = HttpStatus 401 then AuthenticationFailed
      else FailedToFetch)"

text \<open>The object both helpers build for one contributor.\<close>

definition contributor_record :: "raw_contributor \<Rightarrow> string option \<Rightarrow> nat \<Rightarrow> contributor" where
  "contributor_record c avatarData index =
     \<lparr>login = raw_login c,
      avatar_url = raw_avatar_url c,
      avatar_base64 = avatarData,
      html_url = raw_html_url c,
      contributions = raw_contributions c,
      fallback = generateAvatarPattern (raw_login c) index\<rparr>"

text \<open>
  The body of \<open>response.data.map(async (contributor, index) => ...)\<close> in
  \<open>getContributors\<close>, joined by \<open>Promise.all\<close>: the items in order, each with its index.
\<close>

fun map_contributors ::
  "upstream \<Rightarrow> bool \<Rightarrow> nat \<Rightarrow> raw_contributor list \<Rightarrow> world \<Rightarrow> contributor list \<times> world" where
  "map_contributors up includeAvatars index [] w = ([], w)"
| "map_contributors up includeAvatars index (c # rest) w =
     (let (avatarData, w1) =
            (if includeAvatars then getBase64Avatar up w (raw_avatar_url c) else (None, w));
          item = contributor_record c avatarData index;
          (items, w2) = map_contributors up includeAvatars (Suc index) rest w1
      in (item # items, w2))"

definition cache_set :: "string \<Rightarrow> contributor list \<Rightarrow> world \<Rightarrow> world" where
  "cache_set cacheKey contributors w =
     logged (CacheSet cacheKey)
       (w\<lparr>cache := (cache w)(cacheKey \<mapsto> \<lparr>data = contributors, timestamp = now w\<rparr>)\<rparr>)"

text \<open>\<open>cached && Date.now() - cached.timestamp < CACHE_DURATION\<close>\<close>

definition fresh :: "world \<Rightarrow> cache_entry option \<Rightarrow> bool" where
  "fresh w cached = (case cached of None \<Rightarrow> False | Some e \<Rightarrow> now w - timestamp e < CACHE_DURATION)"

text \<open>The cache keys: \<open>`${repo}-${limit}-${includeAvatars}`\<close> and \<open>`${repo}-all-${includeAvatars}`\<close>.\<close>

definition contributors_cacheKey :: "string \<Rightarrow> int \<Rightarrow> bool \<Rightarrow> string" where
  "contributors_cacheKey repo limit includeAvatars =
     repo @ ''-'' @ number_text limit @ ''-'' @ boolean_text includeAvatars"

definition all_cacheKey :: "string \<Rightarrow> bool \<Rightarrow> string" where
  "all_cacheKey repo includeAvatars = repo @ ''-all-'' @ boolean_text includeAvatars"

definition getContributors ::
  "upstream \<Rightarrow> world \<Rightarrow> string \<Rightarrow> int \<Rightarrow> bool \<Rightarrow> (fetch_error + contributor list) \<times> world" where
  "getContributors up w repo limit includeAvatars =
     (let cacheKey = contributors_cacheKey repo limit includeAvatars;
          cached = cache w cacheKey;
          w0 = logged (CacheGet cacheKey) w
      in case (if fresh w cached then cached else None) of
           Some e \<Rightarrow> (Inr (data e), w0)
         | None \<Rightarrow>
             (let per_page = min limit 100;
                  w1 = performed up (ContributorsRequest repo per_page None) w0
              in case contributors_api up (length (trace w0)) repo per_page None of
                   Inl f \<Rightarrow> (Inl (classify f), w1)
                 | Inr response_data \<Rightarrow>
                     (let (contributors, w2) = map_contributors up includeAvatars 0 response_data w1
                      in (Inr contributors, cache_set cacheKey contributors w2))))"

text \<open>
  The \<open>while (hasMore)\<close> loop of \<open>getAllContributors\<close>, entered with \<open>hasMore = true\<close>:
  \<open>page\<close> is the page counter and \<open>allContributors\<close> the accumulator. A failed request
  leaves the loop through the \<open>catch\<close> block.
\<close>

function fetch_pages ::
  "upstream \<Rightarrow> string \<Rightarrow> nat \<Rightarrow> raw_contributor list \<Rightarrow> world \<Rightarrow>
     (api_failure + raw_contributor list) \<times> world" where
  "fetch_pages up repo page allContributors w =
     (let w1 = performed up (ContributorsRequest repo 100 (Some page)) w in
      case contributors_api up (length (trace w)) repo 100 (Some page) of
        Inl f \<Rightarrow> (Inl f, w1)
      | Inr response_data \<Rightarrow>
          if response_data = [] then
            (if page > 100 then (Inr allContributors, w1)
             else (Inr allContributors, sleep 100 w1))
          else
            (if page + 1 > 100 then (Inr (allContributors @ response_data), w1)
             else fetch_pages up repo (page + 1) (allContributors @ response_data) (sleep 100 w1)))"
  by pat_completeness auto
termination
  by (relation "measure (\<lambda>(up, repo, page, allContributors, w). 101 - page)") auto

declare fetch_pages.simps [simp del]

text \<open>
  The avatar loop of \<open>getAllContributors\<close>: \<open>batch.map(async (contributor, batchIndex) => ...)\<close>
  over one batch that starts at global index \<open>i\<close>, then the \<open>for\<close> loop over the batches.
\<close>

fun map_batch ::
  "upstream \<Rightarrow> bool \<Rightarrow> nat \<Rightarrow> nat \<Rightarrow> raw_contributor list \<Rightarrow> world \<Rightarrow> contributor list \<times> world" where
  "map_batch up includeAvatars i batchIndex [] w = ([], w)"
| "map_batch up includeAvatars i batchIndex (c # rest) w =
     (let globalIndex = i + batchIndex;
          (avatarData, w1) =
            (if includeAvatars \<and> globalIndex < 50 then getBase64Avatar up w (raw_avatar_url c)
             else (None, w));
          item = contributor_record c avatarData globalIndex;
          (items, w2) = map_batch up includeAvatars i (Suc batchIndex) rest w1
      in (item # items, w2))"

definition batchSize :: nat where
  "batchSize = 10"

function process_batches ::
  "upstream \<Rightarrow> bool \<Rightarrow> raw_contributor list \<Rightarrow> nat \<Rightarrow> contributor list \<Rightarrow> world \<Rightarrow>
     contributor list \<times> world" where
  "process_batches up includeAvatars allContributors i processedContributors w =
     (if i < length allContributors then
        (let batch = take batchSize (drop i allContributors);
             (processedBatch, w1) = map_batch up includeAvatars i 0 batch w
         in process_batches up includeAvatars allContributors (i + batchSize)
              (processedContributors @ processedBatch) w1)
      else (processedContributors, w))"
  by pat_completeness auto
termination
  by (relation "measure (\<lambda>(up, inc, allContributors, i, acc, w). length allContributors - i)")
     (auto simp: batchSize_def)

declare process_batches.simps [simp del]

definition getAllContributors ::
  "upstream \<Rightarrow> world \<Rightarrow> string \<Rightarrow> bool \<Rightarrow> (fetch_error + contributor list) \<times> world" where
  "getAllContributors up w repo includeAvatars =
     (let cacheKey = all_cacheKey repo includeAvatars;
          cached = cache w cacheKey;
          w0 = logged (CacheGet cacheKey) w
      in case (if fresh w cached then cached else None) of
           Some e \<Rightarrow> (Inr (data e), w0)
         | None \<Rightarrow>
             (case fetch_pages up repo 1 [] w0 of
                (Inl f, w1) \<Rightarrow> (Inl (classify f), w1)
              | (Inr allContributors, w1) \<Rightarrow>
                  (let (processedContributors, w2) =
                         process_batches up includeAvatars allContributors 0 [] w1
                   in (Inr processedContributors, cache_set cacheKey processedContributors w2))))"

subsection \<open>The badge renderer\<close>

record theme_colors =
  bg :: string
  border :: string
  text_color :: string
  shadow :: string
  hover :: string
  fallbackText :: string

definition themes_light :: theme_colors where
  "themes_light =
     \<lparr>bg = ''#ffffff'', border = ''#e1e4e8'', text_color = ''#586069'',
      shadow = ''rgba(0,0,0,0.1)'', hover = ''rgba(3,102,214,0.1)'', fallbackText = ''#ffffff''\<rparr>"

definition themes_dark :: theme_colors where
  "themes_dark =
     \<lparr>bg = ''#161b22'', border = ''#30363d'', text_color = ''#8b949e'',
      shadow = ''rgba(0,0,0,0.3)'', hover = ''rgba(56,139,253,0.1)'', fallbackText = ''#ffffff''\<rparr>"

text \<open>
  \<open>themes[theme] || themes.light\<close>. The object \<open>themes\<close> defines the keys \<open>light\<close> and
  \<open>dark\<close> and inherits the properties of \<open>Object.prototype\<close>: under one of the inherited
  names the lookup yields a function or the prototype itself, which is truthy and has none
  of the six colours, so the template interpolates \<open>undefined\<close> six times.
\<close>

definition prototype_names :: "string list" where
  "prototype_names =
     [''constructor'', ''__proto__'', ''hasOwnProperty'', ''isPrototypeOf'',
      ''propertyIsEnumerable'', ''toLocaleString'', ''toString'', ''valueOf'',
      ''__defineGetter__'', ''__defineSetter__'', ''__lookupGetter__'', ''__lookupSetter__'']"

definition no_colors :: theme_colors where
  "no_colors =
     \<lparr>bg = ''undefined'', border = ''undefined'', text_color = ''undefined'',
      shadow = ''undefined'', hover = ''undefined'', fallbackText = ''undefined''\<rparr>"

definition theme_palette :: "string \<Rightarrow> theme_colors" where
  "theme_palette theme =
     (if theme = ''light'' then themes_light
      else if theme = ''dark'' then themes_dark
      else if theme \<in> set prototype_names then no_colors
      else themes_light)"

text \<open>
  The avatar of one contributor element: the inlined image, or the circle filled with the
  fallback colour under the fallback initial.
\<close>

datatype avatar_element = AvatarImage string | AvatarFallback string string

text \<open>
  The document is kept as the values the SVG template interpolates: the canvas size, the
  theme colours, the number of clip paths and, for each contributor in order, the position
  of its cell, its avatar, its label and its link. A height of \<open>None\<close> is \<open>NaN\<close>.
\<close>

record contributor_element =
  el_x :: nat
  el_y :: nat
  el_avatar :: avatar_element
  el_displayName :: string
  el_login :: string
  el_href :: string

record svg_document =
  svg_width :: nat
  svg_height :: "nat option"
  svg_colors :: theme_colors
  svg_clipPaths :: nat
  svg_elements :: "contributor_element list"

definition avatarSize :: nat where "avatarSize = 40"
definition padding :: nat where "padding = 12"
definition usernameHeight :: nat where "usernameHeight = 16"
definition spacing :: nat where "spacing = 6"
definition minItemWidth :: nat where "minItemWidth = 70"
definition maxUsernameLength :: nat where "maxUsernameLength = 8"

definition displayName :: "contributor \<Rightarrow> string" where
  "displayName c =
     (if length (login c) > maxUsernameLength then take maxUsernameLength (login c) @ ''...''
      else login c)"

text \<open>\<open>if (contributor.avatar_base64)\<close>: \<open>null\<close> and the empty string are falsy.\<close>

definition avatarElement :: "contributor \<Rightarrow> avatar_element" where
  "avatarElement c =
     (case avatar_base64 c of
        Some href \<Rightarrow>
          if href \<noteq> [] then AvatarImage href
          else AvatarFallback (color (fallback c)) (initial (fallback c))
      | None \<Rightarrow> AvatarFallback (color (fallback c)) (initial (fallback c)))"

definition element_at :: "nat \<Rightarrow> nat \<Rightarrow> contributor \<Rightarrow> contributor_element" where
  "element_at x y c =
     \<lparr>el_x = x, el_y = y, el_avatar = avatarElement c, el_displayName = displayName c,
      el_login = login c, el_href = html_url c\<rparr>"

text \<open>\<open>Math.ceil(Math.sqrt(n))\<close> and \<open>Math.ceil(n / cols)\<close>; \<open>0 / 0\<close> is \<open>NaN\<close>.\<close>

definition grid_cols :: "nat \<Rightarrow> nat" where
  "grid_cols n = nat \<lceil>sqrt (real n)\<rceil>"

definition grid_rows :: "nat \<Rightarrow> nat \<Rightarrow> nat option" where
  "grid_rows n cols = (if cols = 0 then None else Some (nat \<lceil>real n / real cols\<rceil>))"

definition generateSVGBadge :: "contributor list \<Rightarrow> string \<Rightarrow> string \<Rightarrow> svg_document" where
  "generateSVGBadge contributors style theme =
     (let colours = theme_palette theme;
          n = length contributors
      in if style = ''grid'' then
           (let cols = grid_cols n;
                rows = grid_rows n cols;
                itemWidth = max (avatarSize + padding) minItemWidth;
                itemHeight = avatarSize + usernameHeight + spacing + padding
            in \<lparr>svg_width = cols * itemWidth + padding,
                svg_height = map_option (\<lambda>r. r * itemHeight + padding) rows,
                svg_colors = colours,
                svg_clipPaths = n,
                svg_elements =
                  map (\<lambda>index.
                         element_at ((index mod cols) * itemWidth + padding)
                                    ((index div cols) * itemHeight + padding)
                                    (contributors ! index))
                      [0..<n]\<rparr>)
         else
           (let itemWidth = max (avatarSize + padding) minItemWidth
            in \<lparr>svg_width = n * itemWidth + padding,
                svg_height = Some (avatarSize + usernameHeight + spacing + padding * 2),
                svg_colors = colours,
                svg_clipPaths = n,
                svg_elements =
                  map (\<lambda>index. element_at (index * itemWidth + padding) padding (contributors ! index))
                      [0..<n]\<rparr>))"

subsection \<open>Route handlers\<close>

record query =
  q_repo :: "string option"
  q_limit :: "string option"
  q_style :: "string option"
  q_theme :: "string option"
  q_avatars :: "string option"

record stats_body =
  st_repository :: string
  st_total_contributors :: nat
  st_total_contributions :: nat
  st_top_contributors :: "(string \<times> nat \<times> string \<times> string) list"

text \<open>
  A response: an error body with its status, a badge (status 200) with the \<open>max-age\<close> of
  its \<open>Cache-Control\<close> header, or a JSON body (status 200).
\<close>

datatype response =
    Json nat string
  | Svg nat svg_document
  | StatsJson stats_body
  | RepoJson repo_data

fun status :: "response \<Rightarrow> nat" where
  "status (Json code message) = code"
| "status (Svg maxAge doc) = 200"
| "status (StatsJson body) = 200"
| "status (RepoJson body) = 200"

text \<open>A destructuring default: it applies when the parameter is absent.\<close>

definition with_default :: "string \<Rightarrow> string option \<Rightarrow> string" where
  "with_default d v = (case v of None \<Rightarrow> d | Some s \<Rightarrow> s)"

text \<open>\<open>!repo.includes('/') || repo.split('/').length !== 2\<close>\<close>

definition bad_repo_format :: "string \<Rightarrow> bool" where
  "bad_repo_format repo \<longleftrightarrow> \<not> str_includes repo CHR ''/'' \<or> length (split repo CHR ''/'') \<noteq> 2"

text \<open>The call of the renderer and the headers and body of the success response.\<close>

definition send_badge ::
  "contributor list \<Rightarrow> string \<Rightarrow> string \<Rightarrow> nat \<Rightarrow> world \<Rightarrow> response \<times> world" where
  "send_badge contributors finalStyle theme maxAge w =
     (Svg maxAge (generateSVGBadge contributors finalStyle theme),
      logged (Render contributors finalStyle theme) w)"

text \<open>The \<open>catch\<close> blocks of the handlers.\<close>

definition badge_catch :: "fetch_error \<Rightarrow> response" where
  "badge_catch e =
     (if e = RepositoryNotFound then Json 404 ''Repository not found''
      else if e = RateLimitExceeded then Json 429 ''API rate limit exceeded. Please try again later.''
      else if e = AuthenticationFailed then Json 401 ''GitHub authentication failed''
      else Json 500 ''Failed to generate badge'')"

definition badge_all_catch :: "fetch_error \<Rightarrow> response" where
  "badge_all_catch e =
     (if e = RepositoryNotFound then Json 404 ''Repository not found''
      else if e = RateLimitExceeded then Json 429 ''API rate limit exceeded. Consider using a GitHub token.''
      else Json 500 ''Failed to generate badge with all contributors'')"

definition badge_fast_catch :: "fetch_error \<Rightarrow> response" where
  "badge_fast_catch e =
     (if e = RepositoryNotFound then Json 404 ''Repository not found''
      else if e = RateLimitExceeded then Json 429 ''API rate limit exceeded. Please try again later.''
      else Json 500 ''Failed to generate badge'')"

definition stats_catch :: "fetch_error \<Rightarrow> response" where
  "stats_catch e =
     (if e = RepositoryNotFound then Json 404 ''Repository not found''
      else if e = RateLimitExceeded then Json 429 ''API rate limit exceeded''
      else Json 500 ''Failed to fetch repository stats'')"

text \<open>\<open>GET /badge\<close>\<close>

definition badge :: "upstream \<Rightarrow> world \<Rightarrow> query \<Rightarrow> response \<times> world" where
  "badge up w q =
     (let limit = with_default ''10'' (q_limit q);
          style = with_default ''horizontal'' (q_style q);
          theme = with_default ''light'' (q_theme q);
          avatars = with_default ''true'' (q_avatars q)
      in case q_repo q of
           None \<Rightarrow> (Json 400 ''Repository parameter is required'', w)
         | Some repo \<Rightarrow>
             if repo = [] then (Json 400 ''Repository parameter is required'', w)
             else if bad_repo_format repo then
               (Json 400 ''Repository must be in format \"username/repo-name\"'', w)
             else if style \<notin> set [''horizontal'', ''grid''] then
               (Json 400 ''Style must be \"horizontal\" or \"grid\"'', w)
             else if theme \<notin> set [''light'', ''dark''] then
               (Json 400 ''Theme must be \"light\" or \"dark\"'', w)
             else
               (let includeAvatars = (avatars \<noteq> ''false'') in
                if limit = ''all'' then
                  (case getAllContributors up w repo includeAvatars of
                     (Inl e, w1) \<Rightarrow> (badge_catch e, w1)
                   | (Inr contributors, w1) \<Rightarrow>
                       (let finalStyle =
                              (if length contributors > 20 \<and> style = ''horizontal'' then ''grid''
                               else style)
                        in if contributors = [] then (Json 404 ''No contributors found'', w1)
                           else send_badge contributors finalStyle theme 300 w1))
                else
                  (case parseInt limit of
                     None \<Rightarrow> (Json 400 ''Limit must be between 1 and 100, or \"all\"'', w)
                   | Some limitNum \<Rightarrow>
                       if limitNum < 1 \<or> limitNum > 100 then
                         (Json 400 ''Limit must be between 1 and 100, or \"all\"'', w)
                       else
                         (case getContributors up w repo limitNum includeAvatars of
                            (Inl e, w1) \<Rightarrow> (badge_catch e, w1)
                          | (Inr contributors, w1) \<Rightarrow>
                              if contributors = [] then (Json 404 ''No contributors found'', w1)
                              else send_badge contributors style theme 300 w1))))"

text \<open>\<open>GET /badge/all\<close>\<close>

definition badge_all :: "upstream \<Rightarrow> world \<Rightarrow> query \<Rightarrow> response \<times> world" where
  "badge_all up w q =
     (let style = with_default ''grid'' (q_style q);
          theme = with_default ''light'' (q_theme q);
          avatars = with_default ''true'' (q_avatars q)
      in case q_repo q of
           None \<Rightarrow> (Json 400 ''Repository parameter is required'', w)
         | Some repo \<Rightarrow>
             if repo = [] then (Json 400 ''Repository parameter is required'', w)
             else if bad_repo_format repo then
               (Json 400 ''Repository must be in format \"username/repo-name\"'', w)
             else
               (let includeAvatars = (avatars \<noteq> ''false'') in
                case getAllContributors up w repo includeAvatars of
                  (Inl e, w1) \<Rightarrow> (badge_all_catch e, w1)
                | (Inr contributors, w1) \<Rightarrow>
                    if contributors = [] then (Json 404 ''No contributors found'', w1)
                    else
                      (let finalStyle = (if length contributors > 20 then ''grid'' else style)
                       in send_badge contributors finalStyle theme 3600 w1)))"

text \<open>\<open>GET /badge/fast\<close>\<close>

definition badge_fast :: "upstream \<Rightarrow> world \<Rightarrow> query \<Rightarrow> response \<times> world" where
  "badge_fast up w q =
     (let limit = with_default ''10'' (q_limit q);
          style = with_default ''horizontal'' (q_style q);
          theme = with_default ''light'' (q_theme q)
      in case q_repo q of
           None \<Rightarrow> (Json 400 ''Repository parameter is required'', w)
         | Some repo \<Rightarrow>
             if repo = [] then (Json 400 ''Repository parameter is required'', w)
             else if bad_repo_format repo then
               (Json 400 ''Repository must be in format \"username/repo-name\"'', w)
             else if limit = ''all'' then
               (case getAllContributors up w repo False of
                  (Inl e, w1) \<Rightarrow> (badge_fast_catch e, w1)
                | (Inr contributors, w1) \<Rightarrow>
                    (let finalStyle =
                           (if length contributors > 20 \<and> style = ''horizontal'' then ''grid''
                            else style)
                     in if contributors = [] then (Json 404 ''No contributors found'', w1)
                        else send_badge contributors finalStyle theme 300 w1))
             else
               (case parseInt limit of
                  None \<Rightarrow> (Json 400 ''Limit must be between 1 and 100, or \"all\"'', w)
                | Some limitNum \<Rightarrow>
                    if limitNum < 1 \<or> limitNum > 100 then
                      (Json 400 ''Limit must be between 1 and 100, or \"all\"'', w)
                    else
                      (case getContributors up w repo limitNum False of
                         (Inl e, w1) \<Rightarrow> (badge_fast_catch e, w1)
                       | (Inr contributors, w1) \<Rightarrow>
                           if contributors = [] then (Json 404 ''No contributors found'', w1)
                           else send_badge contributors style theme 300 w1)))"

text \<open>\<open>GET /stats\<close>\<close>

definition stats :: "upstream \<Rightarrow> world \<Rightarrow> query \<Rightarrow> response \<times> world" where
  "stats up w q =
     (case q_repo q of
        None \<Rightarrow> (Json 400 ''Repository parameter is required'', w)
      | Some repo \<Rightarrow>
          if repo = [] then (Json 400 ''Repository parameter is required'', w)
          else if bad_repo_format repo then
            (Json 400 ''Repository must be in format \"username/repo-name\"'', w)
          else
            (case getAllContributors up w repo False of
               (Inl e, w1) \<Rightarrow> (stats_catch e, w1)
             | (Inr contributors, w1) \<Rightarrow>
                 (StatsJson
                    \<lparr>st_repository = repo,
                     st_total_contributors = length contributors,
                     st_total_contributions = foldl (\<lambda>sum c. sum + contributions c) 0 contributors,
                     st_top_contributors =
                       map (\<lambda>c. (login c, contributions c, avatar_url c, html_url c))
                           (take 10 contributors)\<rparr>,
                  w1)))"

text \<open>\<open>GET /repo-info\<close>\<close>

definition repo_info :: "upstream \<Rightarrow> world \<Rightarrow> query \<Rightarrow> response \<times> world" where
  "repo_info up w q =
     (case q_repo q of
        None \<Rightarrow> (Json 400 ''Repository parameter is required'', w)
      | Some repo \<Rightarrow>
          if repo = [] then (Json 400 ''Repository parameter is required'', w)
          else
            (let w1 = performed up (RepoRequest repo) w in
             case repo_api up (length (trace w)) repo of
               Inl f \<Rightarrow>
                 if f = HttpStatus 404 then (Json 404 ''Repository not found'', w1)
                 else (Json 500 ''Failed to fetch repository information'', w1)
             | Inr info \<Rightarrow> (RepoJson info, w1)))"

subsection \<open>Example upstreams and requests\<close>

definition alice :: raw_contributor where
  "alice =
     \<lparr>raw_login = ''alice'',
      raw_avatar_url = ''https://avatars.example/u/1'',
      raw_html_url = ''https://github.example/alice'',
      raw_contributions = 7\<rparr>"

definition no_repo :: "api_failure + repo_data" where
  "no_repo = Inl (HttpStatus 404)"

text \<open>An upstream whose every contributors request fails with the given status.\<close>

definition upstream_failing :: "nat \<Rightarrow> upstream" where
  "upstream_failing code =
     \<lparr>contributors_api = (\<lambda>k repo per_page page. Inl (HttpStatus code)),
      avatar_api = (\<lambda>k url. AvatarFailed),
      repo_api = (\<lambda>k repo. no_repo),
      latency = (\<lambda>k. 20)\<rparr>"

text \<open>
  An upstream with \<open>n\<close> contributors, all on the first page, whose avatars cannot be
  fetched.
\<close>

definition upstream_with :: "nat \<Rightarrow> upstream" where
  "upstream_with n =
     \<lparr>contributors_api =
        (\<lambda>k repo per_page page.
           if page = None \<or> page = Some 1 then Inr (replicate n alice) else Inr []),
      avatar_api = (\<lambda>k url. AvatarFailed),
      repo_api = (\<lambda>k repo. no_repo),
      latency = (\<lambda>k. 20)\<rparr>"

text \<open>An upstream that never returns an empty page.\<close>

definition upstream_endless :: upstream where
  "upstream_endless =
     \<lparr>contributors_api = (\<lambda>k repo per_page page. Inr [alice]),
      avatar_api = (\<lambda>k url. AvatarFailed),
      repo_api = (\<lambda>k repo. no_repo),
      latency = (\<lambda>k. 20)\<rparr>"

definition world0 :: world where
  "world0 = \<lparr>cache = Map.empty, now = 0, trace = []\<rparr>"

text \<open>
  A world at time \<open>t\<close> whose cache holds, stored at time 0, one contributor under the key
  of \<open>getContributors ''o/r'' 5 False\<close> and under the key of \<open>getAllContributors ''o/r'' False\<close>.
\<close>

definition stored :: "contributor list" where
  "stored = [contributor_record alice None 0]"


text \<open>Five contributors without inlined avatars.\<close>

definition five :: "contributor list" where
  "five = map (contributor_record alice None) [0, 1, 2, 3, 4]"

text \<open>A request that gives only \<open>repo\<close>, then one that also gives \<open>limit\<close>.\<close>

definition request :: "string \<Rightarrow> query" where
  "request repo =
     \<lparr>q_repo = Some repo, q_limit = None, q_style = None, q_theme = None, q_avatars = None\<rparr>"

definition request_limit :: "string \<Rightarrow> string \<Rightarrow> query" where
  "request_limit repo limit = (request repo)\<lparr>q_limit := Some limit\<rparr>"

subsection \<open>Observations on traces\<close>

text \<open>The effects a run adds to the trace: what stands in \<open>w'\<close> after the trace of \<open>w\<close>.\<close>

definition new_events :: "world \<Rightarrow> world \<Rightarrow> event list" where
  "new_events w w' = drop (length (trace w)) (trace w')"

fun is_contributors_request :: "event \<Rightarrow> bool" where
  "is_contributors_request (ContributorsRequest repo per_page page) = True"
| "is_contributors_request e = False"

fun is_render :: "event \<Rightarrow> bool" where
  "is_render (Render contributors style theme) = True"
| "is_render e = False"

text \<open>The requests for the pages \<open>first, first + 1, ..., first + k - 1\<close> of a repository.\<close>

definition page_requests :: "string \<Rightarrow> nat \<Rightarrow> nat \<Rightarrow> event list" where
  "page_requests repo first k =
     map (\<lambda>p. ContributorsRequest repo 100 (Some p)) [first..<first + k]"

definition avatar_requests :: "raw_contributor list \<Rightarrow> event list" where
  "avatar_requests cs = map (\<lambda>c. AvatarRequest (raw_avatar_url c)) cs"

text \<open>The arguments of the renderer calls in a trace, in order.\<close>

fun renders :: "event list \<Rightarrow> (contributor list \<times> string \<times> string) list" where
  "renders [] = []"
| "renders (Render contributors style theme # es) = (contributors, style, theme) # renders es"
| "renders (e # es) = renders es"

text \<open>The same calls by the number of contributors passed, the style and the theme.\<close>

definition render_summary :: "event list \<Rightarrow> (nat \<times> string \<times> string) list" where
  "render_summary es = map (\<lambda>(contributors, style, theme). (length contributors, style, theme)) (renders es)"

text \<open>
  The \<open>finalStyle\<close> of \<open>/badge\<close> and \<open>/badge/fast\<close> for a request and the fetched
  contributors: both branches of the handler in one expression.
\<close>

definition badge_final :: "query \<Rightarrow> contributor list \<Rightarrow> string" where
  "badge_final q cs =
     (if with_default ''10'' (q_limit q) = ''all'' \<and> 20 < length cs
         \<and> with_default ''horizontal'' (q_style q) = ''horizontal''
      then ''grid'' else with_default ''horizontal'' (q_style q))"

text \<open>The number of separators in a repository identifier.\<close>

definition slash_count :: "string \<Rightarrow> nat" where
  "slash_count s = length (filter (\<lambda>c. c = CHR ''/'') s)"

text \<open>
  The repository identifier as the specification words it: exactly one separator, which
  splits the identifier into two non-empty segments.
\<close>

definition well_formed_repo :: "string \<Rightarrow> bool" where
  "well_formed_repo s =
     (case split s CHR ''/'' of
        [owner, name] \<Rightarrow> owner \<noteq> [] \<and> name \<noteq> []
      | _ \<Rightarrow> False)"

section \<open>Properties\<close>

subsection \<open>Effects of the primitive steps\<close>

lemma trace_performed [simp]: "trace (performed up e w) = trace w @ [e]"
  by (simp add: performed_def)

lemma cache_performed [simp]: "cache (performed up e w) = cache w"
  by (simp add: performed_def)

lemma now_performed: "now w \<le> now (performed up e w)"
  by (simp add: performed_def)

lemma trace_logged [simp]: "trace (logged e w) = trace w @ [e]"
  by (simp add: logged_def)

lemma cache_logged [simp]: "cache (logged e w) = cache w"
  by (simp add: logged_def)

lemma now_logged [simp]: "now (logged e w) = now w"
  by (simp add: logged_def)

lemma trace_sleep [simp]: "trace (sleep ms w) = trace w"
  by (simp add: sleep_def)

lemma cache_sleep [simp]: "cache (sleep ms w) = cache w"
  by (simp add: sleep_def)

lemma now_sleep: "now w \<le> now (sleep ms w)"
  by (simp add: sleep_def)

lemma trace_cache_set [simp]: "trace (cache_set k cs w) = trace w @ [CacheSet k]"
  by (simp add: cache_set_def)

lemma cache_cache_set [simp]:
  "cache (cache_set k cs w) = (cache w)(k \<mapsto> \<lparr>data = cs, timestamp = now w\<rparr>)"
  by (simp add: cache_set_def)

lemma now_cache_set [simp]: "now (cache_set k cs w) = now w"
  by (simp add: cache_set_def)

lemma new_events_append [simp]: "trace w' = trace w @ es \<Longrightarrow> new_events w w' = es"
  by (simp add: new_events_def)

lemma new_events_same [simp]: "new_events w w = []"
  by (simp add: new_events_def)

subsection \<open>The pagination loop\<close>

lemma fetch_pages_shape:
  "fetch_pages up repo page acc w = (r, w') \<Longrightarrow>
     \<exists>k. trace w' = trace w @ page_requests repo page k \<and> 1 \<le> k
         \<and> (page \<le> 100 \<longrightarrow> page + k \<le> 101)
         \<and> cache w' = cache w \<and> now w \<le> now w'"
proof (induction up repo page acc w arbitrary: r w' rule: fetch_pages.induct)
  case (1 up repo page acc w)
  let ?w1 = "performed up (ContributorsRequest repo 100 (Some page)) w"
  let ?resp = "contributors_api up (length (trace w)) repo 100 (Some page)"
  have one: "page_requests repo page 1 = [ContributorsRequest repo 100 (Some page)]"
    by (simp add: page_requests_def)
  have t1: "now w \<le> now ?w1" by (rule now_performed)
  have t2: "now ?w1 \<le> now (sleep 100 ?w1)" by (rule now_sleep)
  show ?case
  proof (cases ?resp)
    case (Inl f)
    with "1.prems" have "w' = ?w1"
      by (simp add: fetch_pages.simps [of up repo page acc w] Let_def)
    then show ?thesis using one t1 by (intro exI [of _ 1]) simp
  next
    case (Inr d)
    show ?thesis
    proof (cases "d = [] \<or> page + 1 > 100")
      case True
      with Inr "1.prems" have "w' = ?w1 \<or> w' = sleep 100 ?w1"
        by (auto simp: fetch_pages.simps [of up repo page acc w] Let_def split: if_splits)
      then show ?thesis using one t1 t2
        by (intro exI [of _ 1]) auto
    next
      case False
      with Inr "1.prems"
      have rec: "fetch_pages up repo (page + 1) (acc @ d) (sleep 100 ?w1) = (r, w')"
        by (simp add: fetch_pages.simps [of up repo page acc w] Let_def)
      from False Inr
      have "\<exists>k. trace w' = trace (sleep 100 ?w1) @ page_requests repo (page + 1) k \<and> 1 \<le> k
           \<and> (page + 1 \<le> 100 \<longrightarrow> page + 1 + k \<le> 101) \<and> cache w' = cache (sleep 100 ?w1)
           \<and> now (sleep 100 ?w1) \<le> now w'"
        using "1.IH" [OF refl Inr _ _ rec] by simp
      then obtain k where k: "trace w' = trace (sleep 100 ?w1) @ page_requests repo (page + 1) k"
          "1 \<le> k" "page + 1 + k \<le> 101" "cache w' = cache w" "now (sleep 100 ?w1) \<le> now w'"
        using False by auto
      have "page_requests repo page (Suc k) =
              ContributorsRequest repo 100 (Some page) # page_requests repo (page + 1) k"
        by (simp add: page_requests_def upt_conv_Cons)
      with k show ?thesis using t1 t2
        by (intro exI [of _ "Suc k"]) auto
    qed
  qed
qed

subsection \<open>The avatar loops\<close>

lemma map_contributors_spec:
  "map_contributors up inc idx raws w = (cs, w') \<Longrightarrow>
     length cs = length raws
     \<and> trace w' = trace w @ (if inc then avatar_requests raws else [])
     \<and> cache w' = cache w \<and> now w \<le> now w'
     \<and> (\<forall>j < length raws. cs ! j =
           contributor_record (raws ! j)
             (if inc then data_uri (avatar_api up (length (trace w) + j) (raw_avatar_url (raws ! j)))
              else None)
             (idx + j))"
proof (induction raws arbitrary: idx w cs w')
  case Nil
  then show ?case by (simp add: avatar_requests_def)
next
  case (Cons c rest)
  obtain a w1 where aw: "(if inc then getBase64Avatar up w (raw_avatar_url c) else (None, w)) = (a, w1)"
    by (cases "if inc then getBase64Avatar up w (raw_avatar_url c) else (None, w)")
  obtain items w2 where rec: "map_contributors up inc (Suc idx) rest w1 = (items, w2)"
    by (cases "map_contributors up inc (Suc idx) rest w1")
  from Cons.prems aw rec have res: "cs = contributor_record c a idx # items" "w' = w2"
    by (simp_all add: Let_def)
  have a: "a = (if inc then data_uri (avatar_api up (length (trace w)) (raw_avatar_url c)) else None)"
    and w1: "trace w1 = trace w @ (if inc then [AvatarRequest (raw_avatar_url c)] else [])"
       "cache w1 = cache w" "now w \<le> now w1"
    using aw now_performed [of w up "AvatarRequest (raw_avatar_url c)"]
    by (auto simp: getBase64Avatar_def split: if_splits)
  note ih = Cons.IH [OF rec]
  have "\<forall>j < length (c # rest). cs ! j =
           contributor_record ((c # rest) ! j)
             (if inc then data_uri (avatar_api up (length (trace w) + j) (raw_avatar_url ((c # rest) ! j)))
              else None)
             (idx + j)"
  proof (intro allI impI)
    fix j assume j: "j < length (c # rest)"
    show "cs ! j = contributor_record ((c # rest) ! j)
             (if inc then data_uri (avatar_api up (length (trace w) + j) (raw_avatar_url ((c # rest) ! j)))
              else None) (idx + j)"
    proof (cases j)
      case 0
      then show ?thesis using res a by simp
    next
      case (Suc i)
      with j have "i < length rest" by simp
      with ih have "items ! i = contributor_record (rest ! i)
             (if inc then data_uri (avatar_api up (length (trace w1) + i) (raw_avatar_url (rest ! i)))
              else None) (Suc idx + i)" by blast
      then show ?thesis using Suc res w1 by (cases inc) simp_all
    qed
  qed
  moreover have "length cs = length (c # rest)" using ih res by simp
  moreover have "trace w' = trace w @ (if inc then avatar_requests (c # rest) else [])"
    using ih res w1 by (simp add: avatar_requests_def)
  moreover have "cache w' = cache w" "now w \<le> now w'" using ih res w1 by auto
  ultimately show ?case by blast
qed

lemma map_batch_spec:
  "map_batch up inc i bi batch w = (cs, w') \<Longrightarrow>
     length cs = length batch
     \<and> trace w' = trace w @ avatar_requests (take (if inc then 50 - (i + bi) else 0) batch)
     \<and> cache w' = cache w \<and> now w \<le> now w'
     \<and> (\<forall>j < length batch. cs ! j =
           contributor_record (batch ! j)
             (if inc \<and> i + bi + j < 50
              then data_uri (avatar_api up (length (trace w) + j) (raw_avatar_url (batch ! j)))
              else None)
             (i + bi + j))"
proof (induction batch arbitrary: bi w cs w')
  case Nil
  then show ?case by (simp add: avatar_requests_def)
next
  case (Cons c rest)
  let ?want = "inc \<and> i + bi < 50"
  obtain a w1 where aw: "(if ?want then getBase64Avatar up w (raw_avatar_url c) else (None, w)) = (a, w1)"
    by (cases "if ?want then getBase64Avatar up w (raw_avatar_url c) else (None, w)")
  obtain items w2 where rec: "map_batch up inc i (Suc bi) rest w1 = (items, w2)"
    by (cases "map_batch up inc i (Suc bi) rest w1")
  from Cons.prems aw rec have res: "cs = contributor_record c a (i + bi) # items" "w' = w2"
    by (simp_all add: Let_def)
  have a: "a = (if ?want then data_uri (avatar_api up (length (trace w)) (raw_avatar_url c)) else None)"
    and w1: "trace w1 = trace w @ (if ?want then [AvatarRequest (raw_avatar_url c)] else [])"
       "cache w1 = cache w" "now w \<le> now w1"
    using aw now_performed [of w up "AvatarRequest (raw_avatar_url c)"]
    by (auto simp: getBase64Avatar_def split: if_splits)
  note ih = Cons.IH [OF rec]
  have nth: "\<forall>j < length (c # rest). cs ! j =
           contributor_record ((c # rest) ! j)
             (if inc \<and> i + bi + j < 50
              then data_uri (avatar_api up (length (trace w) + j) (raw_avatar_url ((c # rest) ! j)))
              else None)
             (i + bi + j)"
  proof (intro allI impI)
    fix j assume j: "j < length (c # rest)"
    show "cs ! j = contributor_record ((c # rest) ! j)
             (if inc \<and> i + bi + j < 50
              then data_uri (avatar_api up (length (trace w) + j) (raw_avatar_url ((c # rest) ! j)))
              else None) (i + bi + j)"
    proof (cases j)
      case 0
      then show ?thesis using res a by simp
    next
      case (Suc m)
      with j have "m < length rest" by simp
      with ih have m: "items ! m = contributor_record (rest ! m)
             (if inc \<and> i + Suc bi + m < 50
              then data_uri (avatar_api up (length (trace w1) + m) (raw_avatar_url (rest ! m)))
              else None) (i + Suc bi + m)" by blast
      show ?thesis
      proof (cases "inc \<and> i + bi + j < 50")
        case True
        with Suc have "?want" by simp
        with w1 have "length (trace w1) = Suc (length (trace w))" by simp
        with m True Suc res show ?thesis by simp
      next
        case False
        with m Suc res show ?thesis by auto
      qed
    qed
  qed
  have tr: "trace w' = trace w @ avatar_requests (take (if inc then 50 - (i + bi) else 0) (c # rest))"
  proof (cases ?want)
    case True
    then have "50 - (i + bi) = Suc (50 - (i + Suc bi))" by linarith
    then show ?thesis using ih res w1 True by (simp add: avatar_requests_def)
  next
    case False
    then have "(if inc then 50 - (i + bi) else 0) = 0" "(if inc then 50 - (i + Suc bi) else 0) = 0" by auto
    then show ?thesis using ih res w1 False by (simp add: avatar_requests_def)
  qed
  have "length cs = length (c # rest)" using ih res by simp
  moreover have "cache w' = cache w" "now w \<le> now w'" using ih res w1 by auto
  ultimately show ?case using nth tr by blast
qed

lemma process_batches_spec:
  "process_batches up inc all i acc w = (cs, w') \<Longrightarrow>
     \<exists>items. cs = acc @ items \<and> length items = length all - i
       \<and> trace w' = trace w @ avatar_requests (take (if inc then 50 - i else 0) (drop i all))
       \<and> cache w' = cache w \<and> now w \<le> now w'
       \<and> (\<forall>j < length all - i. items ! j =
             contributor_record (all ! (i + j))
               (if inc \<and> i + j < 50
                then data_uri (avatar_api up (length (trace w) + j) (raw_avatar_url (all ! (i + j))))
                else None)
               (i + j))"
proof (induction up inc all i acc w arbitrary: cs w' rule: process_batches.induct)
  case (1 up inc all i acc w)
  show ?case
  proof (cases "i < length all")
    case False
    with "1.prems" show ?thesis
      by (simp add: process_batches.simps [of up inc all i acc w] avatar_requests_def)
  next
    case True
    let ?batch = "take batchSize (drop i all)"
    obtain pb w1 where mb: "map_batch up inc i 0 ?batch w = (pb, w1)"
      by (cases "map_batch up inc i 0 ?batch w")
    with True "1.prems" have rec: "process_batches up inc all (i + batchSize) (acc @ pb) w1 = (cs, w')"
      by (simp add: process_batches.simps [of up inc all i acc w] Let_def)
    from map_batch_spec [OF mb]
    have b: "length pb = length ?batch"
        "trace w1 = trace w @ avatar_requests (take (if inc then 50 - i else 0) ?batch)"
        "cache w1 = cache w" "now w \<le> now w1"
        "\<And>j. j < length ?batch \<Longrightarrow> pb ! j = contributor_record (?batch ! j)
             (if inc \<and> i + j < 50
              then data_uri (avatar_api up (length (trace w) + j) (raw_avatar_url (?batch ! j)))
              else None) (i + j)"
      by auto
    from "1.IH" [OF True refl mb [symmetric] refl rec]
    obtain items where it: "cs = (acc @ pb) @ items" "length items = length all - (i + batchSize)"
       "trace w' = trace w1 @ avatar_requests (take (if inc then 50 - (i + batchSize) else 0) (drop (i + batchSize) all))"
       "cache w' = cache w1" "now w1 \<le> now w'"
       "\<And>j. j < length all - (i + batchSize) \<Longrightarrow> items ! j =
             contributor_record (all ! (i + batchSize + j))
               (if inc \<and> i + batchSize + j < 50
                then data_uri (avatar_api up (length (trace w1) + j) (raw_avatar_url (all ! (i + batchSize + j))))
                else None)
               (i + batchSize + j)"
      by auto
    have lb: "length ?batch = min batchSize (length all - i)" by simp
    have len: "length (pb @ items) = length all - i"
      using b(1) it(2) lb True unfolding batchSize_def by (simp add: min_def)
    have tr: "trace w' = trace w @ avatar_requests (take (if inc then 50 - i else 0) (drop i all))"
    proof -
      have "take n (drop i all) = take n ?batch @ take (n - batchSize) (drop (i + batchSize) all)" for n
      proof -
        have "drop i all = ?batch @ drop (i + batchSize) all"
          using append_take_drop_id [of batchSize "drop i all"] by (simp add: add.commute)
        then have "take n (drop i all) = take n (?batch @ drop (i + batchSize) all)" by simp
        also have "\<dots> = take n ?batch @ take (n - length ?batch) (drop (i + batchSize) all)"
          by (rule take_append)
        also have "take (n - length ?batch) (drop (i + batchSize) all) = take (n - batchSize) (drop (i + batchSize) all)"
        proof (cases "batchSize \<le> length all - i")
          case True then show ?thesis using lb by simp
        next
          case False then show ?thesis by simp
        qed
        finally show ?thesis .
      qed
      from this [of "if inc then 50 - i else 0"] show ?thesis
        using it(3) b(2) by (cases inc) (simp_all add: avatar_requests_def)
    qed
    have nth: "\<forall>j < length all - i. (pb @ items) ! j =
             contributor_record (all ! (i + j))
               (if inc \<and> i + j < 50
                then data_uri (avatar_api up (length (trace w) + j) (raw_avatar_url (all ! (i + j))))
                else None)
               (i + j)"
    proof (intro allI impI)
      fix j assume j: "j < length all - i"
      show "(pb @ items) ! j = contributor_record (all ! (i + j))
               (if inc \<and> i + j < 50
                then data_uri (avatar_api up (length (trace w) + j) (raw_avatar_url (all ! (i + j))))
                else None) (i + j)"
      proof (cases "j < batchSize")
        case True
        with j have jb: "j < length ?batch" by simp
        then have "?batch ! j = all ! (i + j)" using j by simp
        with b(5) [OF jb] b(1) jb show ?thesis by (simp add: nth_append)
      next
        case False
        define m where "m = j - batchSize"
        with False have jm: "j = batchSize + m" by simp
        with j have full: "length ?batch = batchSize" and m: "m < length all - (i + batchSize)" by auto
        have "(pb @ items) ! j = items ! m" using jm b(1) full by (simp add: nth_append)
        also note it(6) [OF m]
        also have "(if inc \<and> i + batchSize + m < 50
                then data_uri (avatar_api up (length (trace w1) + m) (raw_avatar_url (all ! (i + batchSize + m))))
                else None) = (if inc \<and> i + j < 50
                then data_uri (avatar_api up (length (trace w) + j) (raw_avatar_url (all ! (i + j))))
                else None)"
        proof (cases "inc \<and> i + j < 50")
          case True
          then have "50 - i \<ge> batchSize" using jm by linarith
          then have "take (if inc then 50 - i else 0) ?batch = ?batch" using True by simp
          with b(2) full have "length (trace w1) = length (trace w) + batchSize"
            by (simp add: avatar_requests_def)
          with True jm show ?thesis by (simp add: add.assoc)
        next
          case False
          with jm show ?thesis by (auto simp: add.assoc)
        qed
        finally show ?thesis using jm by (simp add: add.assoc)
      qed
    qed
    from it(1) len tr nth b(3,4) it(4,5) show ?thesis
      by (intro exI [of _ "pb @ items"]) auto
  qed
qed

subsection \<open>The two fetching helpers\<close>



lemma getContributors_miss:
  assumes miss: "\<not> fresh w (cache w (contributors_cacheKey repo limit inc))"
      and run: "getContributors up w repo limit inc = (r, w')"
  shows "case contributors_api up (Suc (length (trace w))) repo (min limit 100) None of
           Inl f \<Rightarrow>
             r = Inl (classify f) \<and> cache w' = cache w
             \<and> trace w' = trace w @ [CacheGet (contributors_cacheKey repo limit inc),
                                      ContributorsRequest repo (min limit 100) None]
         | Inr raws \<Rightarrow>
             \<exists>cs. r = Inr cs \<and> length cs = length raws
               \<and> cache w' = (cache w)(contributors_cacheKey repo limit inc \<mapsto> \<lparr>data = cs, timestamp = now w'\<rparr>)
               \<and> now w \<le> now w'
               \<and> trace w' = trace w @ [CacheGet (contributors_cacheKey repo limit inc),
                                        ContributorsRequest repo (min limit 100) None]
                               @ (if inc then avatar_requests raws else [])
                               @ [CacheSet (contributors_cacheKey repo limit inc)]
               \<and> (\<forall>j < length raws. cs ! j =
                     contributor_record (raws ! j)
                       (if inc then data_uri (avatar_api up (length (trace w) + 2 + j) (raw_avatar_url (raws ! j)))
                        else None) j)"
proof (cases "contributors_api up (Suc (length (trace w))) repo (min limit 100) None")
  case (Inl f)
  with miss run show ?thesis
    by (auto simp: getContributors_def Let_def)
next
  case (Inr raws)
  let ?key = "contributors_cacheKey repo limit inc"
  let ?w1 = "performed up (ContributorsRequest repo (min limit 100) None) (logged (CacheGet ?key) w)"
  obtain cs w2 where mc: "map_contributors up inc 0 raws ?w1 = (cs, w2)"
    by (cases "map_contributors up inc 0 raws ?w1")
  with miss run Inr have res: "r = Inr cs" "w' = cache_set ?key cs w2"
    by (auto simp: getContributors_def Let_def)
  have "now w \<le> now ?w1"
    using now_performed [of "logged (CacheGet ?key) w" up "ContributorsRequest repo (min limit 100) None"]
    by simp
  with map_contributors_spec [OF mc] res Inr show ?thesis
    by (auto simp: add.commute)
qed

lemma getAllContributors_hit:
  assumes "cache w (all_cacheKey repo inc) = Some e"
      and "now w - timestamp e < CACHE_DURATION"
  shows "getAllContributors up w repo inc = (Inr (data e), logged (CacheGet (all_cacheKey repo inc)) w)"
  using assms by (simp add: getAllContributors_def fresh_def Let_def)

lemma getAllContributors_miss:
  assumes miss: "\<not> fresh w (cache w (all_cacheKey repo inc))"
      and run: "getAllContributors up w repo inc = (r, w')"
  shows "\<exists>p w1 k. fetch_pages up repo 1 [] (logged (CacheGet (all_cacheKey repo inc)) w) = (p, w1)
           \<and> 1 \<le> k \<and> k \<le> 100
           \<and> trace w1 = trace w @ CacheGet (all_cacheKey repo inc) # page_requests repo 1 k
           \<and> (case p of
                 Inl f \<Rightarrow> r = Inl (classify f) \<and> w' = w1 \<and> cache w' = cache w
               | Inr raws \<Rightarrow>
                   \<exists>cs. r = Inr cs \<and> length cs = length raws
                     \<and> cache w' = (cache w)(all_cacheKey repo inc \<mapsto> \<lparr>data = cs, timestamp = now w'\<rparr>)
                     \<and> now w \<le> now w'
                     \<and> trace w' = trace w1 @ avatar_requests (take (if inc then 50 else 0) raws)
                                     @ [CacheSet (all_cacheKey repo inc)]
                     \<and> (\<forall>j < length raws. cs ! j =
                           contributor_record (raws ! j)
                             (if inc \<and> j < 50
                              then data_uri (avatar_api up (length (trace w1) + j) (raw_avatar_url (raws ! j)))
                              else None) j))"
proof -
  let ?key = "all_cacheKey repo inc"
  let ?w0 = "logged (CacheGet ?key) w"
  obtain p w1 where fp: "fetch_pages up repo 1 [] ?w0 = (p, w1)"
    by (cases "fetch_pages up repo 1 [] ?w0")
  from fetch_pages_shape [OF fp]
  obtain k where k: "trace w1 = trace ?w0 @ page_requests repo 1 k" "1 \<le> k" "k \<le> 100"
      "cache w1 = cache w" "now w \<le> now w1"
    by auto
  show ?thesis
  proof (cases p)
    case (Inl f)
    with miss run fp have "r = Inl (classify f)" "w' = w1"
      by (auto simp: getAllContributors_def Let_def)
    with Inl fp k show ?thesis by (intro exI [of _ p] exI [of _ w1] exI [of _ k]) simp
  next
    case (Inr raws)
    obtain cs w2 where pb: "process_batches up inc raws 0 [] w1 = (cs, w2)"
      by (cases "process_batches up inc raws 0 [] w1")
    with miss run fp Inr have res: "r = Inr cs" "w' = cache_set ?key cs w2"
      by (auto simp: getAllContributors_def Let_def)
    from process_batches_spec [OF pb] res Inr fp k show ?thesis
      by (intro exI [of _ p] exI [of _ w1] exI [of _ k]) auto
  qed
qed

subsection \<open>The grid arithmetic\<close>

text \<open>
  The column count is the least \<open>c\<close> with \<open>n \<le> c * c\<close> and the row count is the rounded-up
  quotient, so both can be computed on natural numbers.
\<close>

lemma grid_cols_unique:
  assumes "n \<le> c * c" and "\<And>d. d < c \<Longrightarrow> d * d < n"
  shows "grid_cols n = c"
proof -
  have up: "sqrt (real n) \<le> real c"
  proof (rule real_le_lsqrt)
    show "real n \<le> (real c)\<^sup>2"
      using assms(1) by (metis of_nat_le_iff of_nat_mult power2_eq_square)
  qed simp_all
  have lo: "real c - 1 < sqrt (real n)"
  proof (cases c)
    case 0
    have "0 \<le> sqrt (real n)" by simp
    with 0 show ?thesis by linarith
  next
    case (Suc d)
    then have "d * d < n" using assms(2) by simp
    then have "(real d)\<^sup>2 < real n"
      by (metis of_nat_less_iff of_nat_mult power2_eq_square)
    then have "real d < sqrt (real n)" by (rule real_less_rsqrt)
    with Suc show ?thesis by simp
  qed
  have "\<lceil>sqrt (real n)\<rceil> = int c"
    by (rule ceiling_unique) (use up lo in simp_all)
  then show ?thesis by (simp add: grid_cols_def)
qed

lemma grid_cols_code [code]:
  "grid_cols n = length (takeWhile (\<lambda>c. c * c < n) [0..<n])"
proof (rule grid_cols_unique)
  let ?P = "\<lambda>c. c * c < n"
  let ?k = "length (takeWhile ?P [0..<n])"
  have kn: "?k \<le> n" using length_takeWhile_le [of ?P "[0..<n]"] by simp
  show "n \<le> ?k * ?k"
  proof (cases "?k < n")
    case True
    then have "\<not> ?P ([0..<n] ! ?k)" by (intro nth_length_takeWhile) simp
    with True show ?thesis by simp
  next
    case False
    with kn have "?k = n" by simp
    then show ?thesis by (cases n) simp_all
  qed
  fix d assume d: "d < ?k"
  then have "takeWhile ?P [0..<n] ! d \<in> set (takeWhile ?P [0..<n])" by (rule nth_mem)
  then have "?P (takeWhile ?P [0..<n] ! d)" by (rule set_takeWhileD [THEN conjunct2])
  moreover have "takeWhile ?P [0..<n] ! d = [0..<n] ! d" using d by (rule takeWhile_nth)
  moreover have "[0..<n] ! d = d" using d kn by simp
  ultimately show "d * d < n" by simp
qed

lemma grid_rows_code [code]:
  "grid_rows n cols = (if cols = 0 then None else Some ((n + cols - 1) div cols))"
proof (cases "cols = 0")
  case True
  then show ?thesis by (simp add: grid_rows_def)
next
  case False
  let ?q = "(n + cols - 1) div cols"
  from False have pos: "0 < cols" by simp
  have eq: "?q * cols + (n + cols - 1) mod cols = n + cols - 1" by simp
  have r: "(n + cols - 1) mod cols < cols" using pos by simp
  have a: "n \<le> ?q * cols" using eq r pos by linarith
  have b: "?q * cols < n + cols" using eq pos by linarith
  have "\<lceil>real n / real cols\<rceil> = int ?q"
  proof (rule ceiling_unique)
    have "real (?q * cols) < real (n + cols)" using b by (simp only: of_nat_less_iff)
    then have "(real ?q - 1) * real cols < real n" by (simp add: algebra_simps)
    then show "real_of_int (int ?q) - 1 < real n / real cols"
      using pos by (simp add: pos_less_divide_eq)
    have "real n \<le> real (?q * cols)" using a by (simp only: of_nat_le_iff)
    then show "real n / real cols \<le> real_of_int (int ?q)"
      using pos by (simp add: pos_divide_le_eq)
  qed
  with False show ?thesis by (simp add: grid_rows_def)
qed

subsection \<open>Request validation and error reporting\<close>

text \<open>Unfolding sets for evaluating \<open>parseInt\<close> and the example requests.\<close>

lemmas parseInt_defs =
  parseInt_def strip_sign_def strip_radix_def is_digit_def digit_value_def digits_value_def
  isWhiteSpace_def

lemmas request_defs = request_def request_limit_def

text \<open>
  White space before the number is skipped, the no-break space included; the control
  \<open>0x85\<close> is no white space of the host.
\<close>

lemma parseInt_white_space:
  "parseInt ([CHR 0x09, CHR 0x0A, CHR 0x0B, CHR 0x0C, CHR 0x0D, CHR '' '', CHR 0xA0] @ ''42'') = Some 42"
  "parseInt [CHR 0xA0, CHR ''7''] = Some 7"
  "parseInt [CHR 0x85, CHR ''7''] = None"
  "parseInt ''-0x1F'' = Some (- 31)"
  by (simp_all add: parseInt_defs)

text \<open>
  Capitals of ASCII letters and of Latin-1 letters; the division sign and the feminine
  ordinal indicator have none.
\<close>

lemma toUpperCase_letters:
  "toUpperCase ''octo-Cat9'' = ''OCTO-CAT9''"
  "toUpperCase [CHR 0xE9] = [CHR 0xC9]"
  "toUpperCase [CHR 0xDF] = ''SS''"
  "toUpperCase [CHR 0xF7, CHR 0xAA] = [CHR 0xF7, CHR 0xAA]"
  by (simp_all add: toUpperCase_def upper_char_def lower_letters_def capital_letters_def)

lemma with_default_simps [simp]: "with_default d None = d" "with_default d (Some s) = s"
  by (simp_all add: with_default_def)

lemma length_split_acc: "length (split_acc sep cur s) = Suc (length (filter (\<lambda>c. c = sep) s))"
  by (induction s arbitrary: cur) simp_all

lemma bad_repo_format_iff: "bad_repo_format repo \<longleftrightarrow> slash_count repo \<noteq> 1"
proof -
  have "str_includes repo CHR ''/'' \<longleftrightarrow> slash_count repo \<noteq> 0"
    by (auto simp: str_includes_def slash_count_def filter_empty_conv)
  moreover have "length (split repo CHR ''/'') = Suc (slash_count repo)"
    by (simp add: split_def slash_count_def length_split_acc)
  ultimately show ?thesis
    by (auto simp: bad_repo_format_def)
qed

lemma repo_rejected:
  assumes "q_repo q = None \<or> (\<exists>repo. q_repo q = Some repo \<and> slash_count repo \<noteq> 1)"
  shows "\<exists>msg. badge up w q = (Json 400 msg, w)"
    and "\<exists>msg. badge_all up w q = (Json 400 msg, w)"
    and "\<exists>msg. badge_fast up w q = (Json 400 msg, w)"
    and "\<exists>msg. stats up w q = (Json 400 msg, w)"
  using assms
  by (auto simp: badge_def badge_all_def badge_fast_def stats_def bad_repo_format_iff Let_def)

text \<open>
  Claim C8. On \<open>/badge\<close>, a \<open>limit\<close> that is not the literal \<open>all\<close> and that \<open>parseInt\<close>
  reads as \<open>NaN\<close> or as a number outside 1..100 is answered with status 400 and the world
  is left as it was: no cache access and no upstream request has happened. The values
  \<open>0\<close>, \<open>101\<close> and \<open>abc\<close> are such limits. With \<open>limit=all\<close> and an otherwise valid request the
  answer is not a 400, and the effects of the run are those of \<open>getAllContributors\<close>, the
  paginated fetch, followed at most by the call of the renderer. Any other limit of an
  otherwise valid request, one that \<open>parseInt\<close> reads as a number \<open>m\<close> in 1..100, is not
  answered with 400 either: the effects are those of \<open>getContributors\<close> for \<open>m\<close>, the single
  bounded fetch, followed at most by the call of the renderer.
\<close>

theorem badge_limit_validation:
  "(limit \<noteq> ''all'' \<and> (case parseInt limit of None \<Rightarrow> True | Some n \<Rightarrow> n < 1 \<or> 100 < n)
      \<longrightarrow> status (fst (badge up w (q\<lparr>q_limit := Some limit\<rparr>))) = 400
          \<and> snd (badge up w (q\<lparr>q_limit := Some limit\<rparr>)) = w)
   \<and> parseInt ''0'' = Some 0 \<and> parseInt ''101'' = Some 101 \<and> parseInt ''abc'' = None
   \<and> (q_repo q = Some repo \<and> slash_count repo = 1
        \<and> with_default ''horizontal'' (q_style q) \<in> {''horizontal'', ''grid''}
        \<and> with_default ''light'' (q_theme q) \<in> {''light'', ''dark''}
        \<and> q_limit q = Some ''all''
      \<longrightarrow> status (fst (badge up w q)) \<noteq> 400
          \<and> (snd (badge up w q) =
                snd (getAllContributors up w repo (with_default ''true'' (q_avatars q) \<noteq> ''false''))
             \<or> (\<exists>cs fs th. snd (badge up w q) =
                   logged (Render cs fs th)
                     (snd (getAllContributors up w repo (with_default ''true'' (q_avatars q) \<noteq> ''false''))))))
   \<and> (q_repo q = Some repo \<and> slash_count repo = 1
        \<and> with_default ''horizontal'' (q_style q) \<in> {''horizontal'', ''grid''}
        \<and> with_default ''light'' (q_theme q) \<in> {''light'', ''dark''}
        \<and> limit \<noteq> ''all'' \<and> parseInt limit = Some m \<and> 1 \<le> m \<and> m \<le> 100
      \<longrightarrow> status (fst (badge up w (q\<lparr>q_limit := Some limit\<rparr>))) \<noteq> 400
          \<and> (snd (badge up w (q\<lparr>q_limit := Some limit\<rparr>)) =
                snd (getContributors up w repo m (with_default ''true'' (q_avatars q) \<noteq> ''false''))
             \<or> (\<exists>cs fs th. snd (badge up w (q\<lparr>q_limit := Some limit\<rparr>)) =
                   logged (Render cs fs th)
                     (snd (getContributors up w repo m (with_default ''true'' (q_avatars q) \<noteq> ''false''))))))"
proof (intro conjI impI)
  assume "limit \<noteq> ''all'' \<and> (case parseInt limit of None \<Rightarrow> True | Some n \<Rightarrow> n < 1 \<or> 100 < n)"
  then have "\<exists>msg. badge up w (q\<lparr>q_limit := Some limit\<rparr>) = (Json 400 msg, w)"
    by (auto simp: badge_def Let_def split: option.splits)
  then show "status (fst (badge up w (q\<lparr>q_limit := Some limit\<rparr>))) = 400"
    and "snd (badge up w (q\<lparr>q_limit := Some limit\<rparr>)) = w"
    by auto
next
  show "parseInt ''0'' = Some 0" "parseInt ''101'' = Some 101" "parseInt ''abc'' = None"
    by (simp_all add: parseInt_defs)
next
  assume a: "q_repo q = Some repo \<and> slash_count repo = 1
        \<and> with_default ''horizontal'' (q_style q) \<in> {''horizontal'', ''grid''}
        \<and> with_default ''light'' (q_theme q) \<in> {''light'', ''dark''}
        \<and> q_limit q = Some ''all''"
  let ?inc = "with_default ''true'' (q_avatars q) \<noteq> ''false''"
  obtain r w1 where g: "getAllContributors up w repo ?inc = (r, w1)"
    by (cases "getAllContributors up w repo ?inc")
  from a have nb: "\<not> bad_repo_format repo" "repo \<noteq> []"
    by (auto simp: bad_repo_format_iff slash_count_def)
  have b: "badge up w q =
      (case r of Inl e \<Rightarrow> (badge_catch e, w1)
       | Inr cs \<Rightarrow> if cs = [] then (Json 404 ''No contributors found'', w1)
           else send_badge cs (if length cs > 20 \<and> with_default ''horizontal'' (q_style q) = ''horizontal'' then ''grid''
                 else with_default ''horizontal'' (q_style q)) (with_default ''light'' (q_theme q)) 300 w1)"
    using a nb g by (cases r) (auto simp: badge_def Let_def)
  show "status (fst (badge up w q)) \<noteq> 400"
    unfolding b by (cases r) (auto simp: badge_catch_def send_badge_def)
  show "snd (badge up w q) = snd (getAllContributors up w repo ?inc)
     \<or> (\<exists>cs fs th. snd (badge up w q) = logged (Render cs fs th) (snd (getAllContributors up w repo ?inc)))"
    unfolding b g by (cases r) (auto simp: send_badge_def)
next
  assume a: "q_repo q = Some repo \<and> slash_count repo = 1
        \<and> with_default ''horizontal'' (q_style q) \<in> {''horizontal'', ''grid''}
        \<and> with_default ''light'' (q_theme q) \<in> {''light'', ''dark''}
        \<and> limit \<noteq> ''all'' \<and> parseInt limit = Some m \<and> 1 \<le> m \<and> m \<le> 100"
  let ?inc = "with_default ''true'' (q_avatars q) \<noteq> ''false''"
  let ?q = "q\<lparr>q_limit := Some limit\<rparr>"
  obtain r w1 where g: "getContributors up w repo m ?inc = (r, w1)"
    by (cases "getContributors up w repo m ?inc")
  from a have nb: "\<not> bad_repo_format repo" "repo \<noteq> []"
    by (auto simp: bad_repo_format_iff slash_count_def)
  have b: "badge up w ?q =
      (case r of Inl e \<Rightarrow> (badge_catch e, w1)
       | Inr cs \<Rightarrow> if cs = [] then (Json 404 ''No contributors found'', w1)
           else send_badge cs (with_default ''horizontal'' (q_style q))
                  (with_default ''light'' (q_theme q)) 300 w1)"
    using a nb g by (cases r) (auto simp: badge_def Let_def)
  show "status (fst (badge up w ?q)) \<noteq> 400"
    unfolding b by (cases r) (auto simp: badge_catch_def send_badge_def)
  show "snd (badge up w ?q) = snd (getContributors up w repo m ?inc)
     \<or> (\<exists>cs fs th. snd (badge up w ?q) = logged (Render cs fs th) (snd (getContributors up w repo m ?inc)))"
    unfolding b g by (cases r) (auto simp: send_badge_def)
qed

text \<open>
  The theorem at \<open>limit=0\<close>, at \<open>limit=all\<close> and at the limit \<open>7\<close> behind a no-break space,
  for the repository \<open>o/r\<close>.
\<close>

theorem badge_limit_validation_witness:
  "status (fst (badge (upstream_with 1) world0 (request_limit ''o/r'' ''0''))) = 400
   \<and> snd (badge (upstream_with 1) world0 (request_limit ''o/r'' ''0'')) = world0
   \<and> status (fst (badge (upstream_with 1) world0 (request_limit ''o/r'' ''all''))) \<noteq> 400
   \<and> (snd (badge (upstream_with 1) world0 (request_limit ''o/r'' ''all'')) =
         snd (getAllContributors (upstream_with 1) world0 ''o/r'' True)
       \<or> (\<exists>cs fs th. snd (badge (upstream_with 1) world0 (request_limit ''o/r'' ''all'')) =
             logged (Render cs fs th) (snd (getAllContributors (upstream_with 1) world0 ''o/r'' True))))
   \<and> status (fst (badge (upstream_with 1) world0 (request_limit ''o/r'' [CHR 0xA0, CHR ''7'']))) \<noteq> 400
   \<and> (snd (badge (upstream_with 1) world0 (request_limit ''o/r'' [CHR 0xA0, CHR ''7''])) =
         snd (getContributors (upstream_with 1) world0 ''o/r'' 7 True)
       \<or> (\<exists>cs fs th. snd (badge (upstream_with 1) world0 (request_limit ''o/r'' [CHR 0xA0, CHR ''7''])) =
             logged (Render cs fs th) (snd (getContributors (upstream_with 1) world0 ''o/r'' 7 True))))"
proof -
  have p: "parseInt [CHR 0xA0, CHR ''7''] = Some 7"
    by (simp add: parseInt_defs)
  note zero = badge_limit_validation [where limit = "''0''" and up = "upstream_with 1" and w = world0
          and q = "request ''o/r''"]
  note all = badge_limit_validation [where up = "upstream_with 1" and w = world0
          and q = "request_limit ''o/r'' ''all''" and repo = "''o/r''"]
  note nbsp = badge_limit_validation [where limit = "[CHR 0xA0, CHR ''7'']" and m = 7
          and up = "upstream_with 1" and w = world0 and q = "request ''o/r''" and repo = "''o/r''"]
  from zero have a: "status (fst (badge (upstream_with 1) world0 (request_limit ''o/r'' ''0''))) = 400
      \<and> snd (badge (upstream_with 1) world0 (request_limit ''o/r'' ''0'')) = world0"
    by (simp add: request_defs)
  from all have b: "status (fst (badge (upstream_with 1) world0 (request_limit ''o/r'' ''all''))) \<noteq> 400
   \<and> (snd (badge (upstream_with 1) world0 (request_limit ''o/r'' ''all'')) =
         snd (getAllContributors (upstream_with 1) world0 ''o/r'' True)
       \<or> (\<exists>cs fs th. snd (badge (upstream_with 1) world0 (request_limit ''o/r'' ''all'')) =
             logged (Render cs fs th) (snd (getAllContributors (upstream_with 1) world0 ''o/r'' True))))"
    by (simp add: request_defs slash_count_def)
  from nbsp p have c: "status (fst (badge (upstream_with 1) world0 (request_limit ''o/r'' [CHR 0xA0, CHR ''7'']))) \<noteq> 400
   \<and> (snd (badge (upstream_with 1) world0 (request_limit ''o/r'' [CHR 0xA0, CHR ''7''])) =
         snd (getContributors (upstream_with 1) world0 ''o/r'' 7 True)
       \<or> (\<exists>cs fs th. snd (badge (upstream_with 1) world0 (request_limit ''o/r'' [CHR 0xA0, CHR ''7''])) =
             logged (Render cs fs th) (snd (getContributors (upstream_with 1) world0 ''o/r'' 7 True))))"
    by (simp add: request_defs slash_count_def)
  from a b c show ?thesis by blast
qed

text \<open>
  Claim C10. The limit check of \<open>/badge\<close> reads a numeric prefix: the limits \<open>10abc\<close> and
  \<open>7.9\<close> are not integers and not \<open>all\<close>, yet the handler treats them exactly as \<open>10\<close> and
  \<open>7\<close>. For the repository \<open>o/r\<close> with three contributors, \<open>limit=10abc\<close> is answered with
  status 200 after one upstream request for 10 contributors.
\<close>

theorem badge_limit_numeric_prefix:
  "badge up w (q\<lparr>q_limit := Some ''10abc''\<rparr>) = badge up w (q\<lparr>q_limit := Some ''10''\<rparr>)
   \<and> badge up w (q\<lparr>q_limit := Some ''7.9''\<rparr>) = badge up w (q\<lparr>q_limit := Some ''7''\<rparr>)
   \<and> parseInt ''10abc'' = Some 10 \<and> parseInt ''7.9'' = Some 7
   \<and> status (fst (badge (upstream_with 3) world0 (request_limit ''o/r'' ''10abc''))) = 200
   \<and> filter is_contributors_request
         (trace (snd (badge (upstream_with 3) world0 (request_limit ''o/r'' ''10abc'')))) =
       [ContributorsRequest ''o/r'' 10 None]"
proof -
  have p: "parseInt ''10abc'' = Some 10" "parseInt ''7.9'' = Some 7"
    "parseInt ''10'' = Some 10" "parseInt ''7'' = Some 7"
    by (simp_all add: parseInt_defs)
  have "badge up w (q\<lparr>q_limit := Some ''10abc''\<rparr>) = badge up w (q\<lparr>q_limit := Some ''10''\<rparr>)"
    by (simp add: badge_def Let_def p split: option.split)
  moreover
  have "badge up w (q\<lparr>q_limit := Some ''7.9''\<rparr>) = badge up w (q\<lparr>q_limit := Some ''7''\<rparr>)"
    by (simp add: badge_def Let_def p split: option.split)
  moreover
  have "status (fst (badge (upstream_with 3) world0 (request_limit ''o/r'' ''10abc''))) = 200"
    by code_simp
  moreover
  have "filter is_contributors_request
         (trace (snd (badge (upstream_with 3) world0 (request_limit ''o/r'' ''10abc'')))) =
       [ContributorsRequest ''o/r'' 10 None]"
    by code_simp
  ultimately show ?thesis using p by simp
qed

text \<open>
  Claim C2, as stated, fails. The identifier \<open>a/\<close> has an empty segment, yet \<open>/badge\<close> does
  not answer 400: it reads the cache and asks the upstream, whose 404 it passes on.
  \<open>/repo-info\<close> checks only that \<open>repo\<close> is present: \<open>noSlash\<close> reaches the upstream.
\<close>

theorem repo_with_empty_segment_accepted:
  "\<not> well_formed_repo ''a/''
   \<and> status (fst (badge (upstream_failing 404) world0 (request ''a/''))) = 404
   \<and> trace (snd (badge (upstream_failing 404) world0 (request ''a/''))) =
       [CacheGet ''a/-10-true'', ContributorsRequest ''a/'' 10 None]
   \<and> \<not> well_formed_repo ''noSlash''
   \<and> status (fst (repo_info (upstream_failing 404) world0 (request ''noSlash''))) = 404
   \<and> trace (snd (repo_info (upstream_failing 404) world0 (request ''noSlash''))) =
       [RepoRequest ''noSlash'']"
  by code_simp

text \<open>
  Claim C2, amended. On \<open>/badge\<close>, \<open>/badge/all\<close>, \<open>/badge/fast\<close> and \<open>/stats\<close>, a request
  whose \<open>repo\<close> is missing or does not contain exactly one \<open>/\<close> (the empty string, \<open>noSlash\<close>,
  \<open>a/b/c\<close>) is answered with status 400 and the world is left as it was. An identifier
  with exactly one \<open>/\<close> passes the check, also when a segment is empty; on \<open>/badge/all\<close>
  and \<open>/stats\<close>, which check nothing else, it is never answered with 400. Every
  identifier that is well formed in the specification's sense has exactly one \<open>/\<close>.
\<close>

theorem repo_validation:
  "(q_repo q = None \<or> (\<exists>repo. q_repo q = Some repo \<and> slash_count repo \<noteq> 1)
      \<longrightarrow> status (fst (badge up w q)) = 400 \<and> snd (badge up w q) = w
        \<and> status (fst (badge_all up w q)) = 400 \<and> snd (badge_all up w q) = w
        \<and> status (fst (badge_fast up w q)) = 400 \<and> snd (badge_fast up w q) = w
        \<and> status (fst (stats up w q)) = 400 \<and> snd (stats up w q) = w)
   \<and> (q_repo q = Some repo \<and> slash_count repo = 1
      \<longrightarrow> status (fst (badge_all up w q)) \<noteq> 400 \<and> status (fst (stats up w q)) \<noteq> 400)
   \<and> (well_formed_repo repo \<longrightarrow> slash_count repo = 1)"
proof (intro conjI impI)
  assume a: "q_repo q = None \<or> (\<exists>repo. q_repo q = Some repo \<and> slash_count repo \<noteq> 1)"
  from repo_rejected [OF a, of up w]
  show "status (fst (badge up w q)) = 400" "snd (badge up w q) = w"
       "status (fst (badge_all up w q)) = 400" "snd (badge_all up w q) = w"
       "status (fst (badge_fast up w q)) = 400" "snd (badge_fast up w q) = w"
       "status (fst (stats up w q)) = 400" "snd (stats up w q) = w"
    by auto
next
  assume a: "q_repo q = Some repo \<and> slash_count repo = 1"
  then have nb: "\<not> bad_repo_format repo" "repo \<noteq> []"
    by (auto simp: bad_repo_format_iff slash_count_def)
  let ?inc = "with_default ''true'' (q_avatars q) \<noteq> ''false''"
  obtain r w1 where g: "getAllContributors up w repo ?inc = (r, w1)"
    by (cases "getAllContributors up w repo ?inc")
  obtain r' w1' where g': "getAllContributors up w repo False = (r', w1')"
    by (cases "getAllContributors up w repo False")
  show "status (fst (badge_all up w q)) \<noteq> 400"
    using a nb g by (cases r) (auto simp: badge_all_def Let_def badge_all_catch_def send_badge_def)
  show "status (fst (stats up w q)) \<noteq> 400"
    using a nb g' by (cases r') (auto simp: stats_def Let_def stats_catch_def)
next
  assume "well_formed_repo repo"
  then have "length (split repo CHR ''/'') = 2"
    by (auto simp: well_formed_repo_def split: list.splits)
  then show "slash_count repo = 1"
    by (simp add: split_def slash_count_def length_split_acc)
qed

text \<open>The theorem at \<open>noSlash\<close>, \<open>a/b/c\<close>, \<open>a/\<close> and \<open>o/r\<close>.\<close>

theorem repo_validation_witness:
  "status (fst (badge (upstream_with 1) world0 (request ''noSlash''))) = 400
   \<and> snd (badge (upstream_with 1) world0 (request ''noSlash'')) = world0
   \<and> status (fst (badge_all (upstream_with 1) world0 (request ''a/b/c''))) = 400
   \<and> snd (stats (upstream_with 1) world0 (request ''a/b/c'')) = world0
   \<and> status (fst (badge_all (upstream_with 1) world0 (request ''a/''))) \<noteq> 400
   \<and> slash_count ''o/r'' = 1"
  using repo_validation [where q = "request ''noSlash''" and up = "upstream_with 1" and w = world0]
        repo_validation [where q = "request ''a/b/c''" and up = "upstream_with 1" and w = world0]
        repo_validation [where q = "request ''a/''" and up = "upstream_with 1" and w = world0
          and repo = "''a/''"]
        repo_validation [where repo = "''o/r''"]
  by (simp add: request_defs slash_count_def well_formed_repo_def split_def)

text \<open>
  Claim C3. When the upstream answers 401, both helpers throw \<open>Authentication failed\<close>.
  \<open>/badge\<close> reports it as 401; \<open>/badge/all\<close>, \<open>/badge/fast\<close> and \<open>/stats\<close> have no branch for
  it and report 500.
\<close>

theorem unauthorized_is_500_outside_badge:
  "status (fst (badge_all (upstream_failing 401) world0 (request ''o/r''))) = 500
   \<and> status (fst (badge_fast (upstream_failing 401) world0 (request ''o/r''))) = 500
   \<and> status (fst (stats (upstream_failing 401) world0 (request ''o/r''))) = 500
   \<and> status (fst (badge (upstream_failing 401) world0 (request ''o/r''))) = 401"
  by code_simp

subsection \<open>Requests issued by the unbounded fetch\<close>

lemma filter_page_requests [simp]:
  "filter is_contributors_request (page_requests repo p k) = page_requests repo p k"
  by (simp add: page_requests_def filter_map comp_def)

lemma filter_avatar_requests [simp]:
  "filter is_contributors_request (avatar_requests cs) = []"
  by (simp add: avatar_requests_def filter_map comp_def)

lemma renders_append [simp]: "renders (es @ fs) = renders es @ renders fs"
  by (induction es rule: renders.induct) simp_all


lemma renders_avatar_requests [simp]: "renders (avatar_requests cs) = []"
  by (induction cs) (simp_all add: avatar_requests_def)

lemma page_requests_Suc:
  "page_requests repo p (Suc k) = ContributorsRequest repo 100 (Some p) # page_requests repo (Suc p) k"
  by (simp add: page_requests_def upt_conv_Cons del: upt_Suc)

lemma renders_page_requests [simp]: "renders (page_requests repo p k) = []"
proof (induction k arbitrary: p)
  case 0
  show ?case by (simp add: page_requests_def)
next
  case (Suc k)
  then show ?case by (simp add: page_requests_Suc)
qed

lemma getAllContributors_requests:
  assumes miss: "\<not> fresh w (cache w (all_cacheKey repo inc))"
      and run: "getAllContributors up w repo inc = (r, w')"
  obtains p w1 k where "fetch_pages up repo 1 [] (logged (CacheGet (all_cacheKey repo inc)) w) = (p, w1)"
      and "1 \<le> k" and "k \<le> 100"
      and "trace w1 = trace w @ CacheGet (all_cacheKey repo inc) # page_requests repo 1 k"
      and "filter is_contributors_request (new_events w w') = page_requests repo 1 k"
      and "renders (new_events w w') = []"
      and "length (trace w) \<le> length (trace w')"
proof -
  from getAllContributors_miss [OF miss run]
  obtain p w1 k where fp: "fetch_pages up repo 1 [] (logged (CacheGet (all_cacheKey repo inc)) w) = (p, w1)"
      and k: "1 \<le> k" "k \<le> 100"
      and tr: "trace w1 = trace w @ CacheGet (all_cacheKey repo inc) # page_requests repo 1 k"
      and c: "case p of
                 Inl f \<Rightarrow> r = Inl (classify f) \<and> w' = w1 \<and> cache w' = cache w
               | Inr raws \<Rightarrow>
                   \<exists>cs. r = Inr cs \<and> length cs = length raws
                     \<and> cache w' = (cache w)(all_cacheKey repo inc \<mapsto> \<lparr>data = cs, timestamp = now w'\<rparr>)
                     \<and> now w \<le> now w'
                     \<and> trace w' = trace w1 @ avatar_requests (take (if inc then 50 else 0) raws)
                                     @ [CacheSet (all_cacheKey repo inc)]
                     \<and> (\<forall>j < length raws. cs ! j =
                           contributor_record (raws ! j)
                             (if inc \<and> j < 50
                              then data_uri (avatar_api up (length (trace w1) + j) (raw_avatar_url (raws ! j)))
                              else None) j)"
    by blast
  have "filter is_contributors_request (new_events w w') = page_requests repo 1 k
        \<and> renders (new_events w w') = [] \<and> length (trace w) \<le> length (trace w')"
  proof (cases p)
    case (Inl f)
    with c tr show ?thesis by simp
  next
    case (Inr raws)
    with c have "trace w' = trace w1 @ avatar_requests (take (if inc then 50 else 0) raws)
                                     @ [CacheSet (all_cacheKey repo inc)]"
      by auto
    with tr show ?thesis by simp
  qed
  with fp k tr that show thesis by blast
qed

lemma fetch_pages_endless:
  "(\<And>k p. \<exists>c cs. contributors_api up k repo 100 (Some p) = Inr (c # cs)) \<Longrightarrow>
   page \<le> 100 \<Longrightarrow> fetch_pages up repo page acc w = (r, w') \<Longrightarrow>
     trace w' = trace w @ page_requests repo page (101 - page)"
proof (induction up repo page acc w arbitrary: r w' rule: fetch_pages.induct)
  case (1 up repo page acc w)
  let ?w1 = "performed up (ContributorsRequest repo 100 (Some page)) w"
  from "1.prems"(1) obtain c cs
    where resp: "contributors_api up (length (trace w)) repo 100 (Some page) = Inr (c # cs)"
    by blast
  show ?case
  proof (cases "page + 1 > 100")
    case True
    with "1.prems"(2) have "page = 100" by simp
    moreover from True resp "1.prems"(3) have "w' = ?w1"
      by (simp add: fetch_pages.simps [of up repo page acc w] Let_def)
    ultimately show ?thesis by (simp add: page_requests_def)
  next
    case False
    with resp "1.prems"(3)
    have rec: "fetch_pages up repo (page + 1) (acc @ c # cs) (sleep 100 ?w1) = (r, w')"
      by (simp add: fetch_pages.simps [of up repo page acc w] Let_def)
    from False have le: "page + 1 \<le> 100" by simp
    have "trace w' = trace (sleep 100 ?w1) @ page_requests repo (page + 1) (101 - (page + 1))"
      using "1.IH" [OF refl resp _ False "1.prems"(1) le rec] by simp
    moreover from False have "101 - page = Suc (101 - (page + 1))" by simp
    ultimately show ?thesis by (simp add: page_requests_Suc)
  qed
qed

text \<open>
  Claim C5. \<open>getAllContributors\<close> is a total function: for every upstream its pagination
  loop terminates, by the measure \<open>101 - page\<close>. Whatever the upstream answers, the
  contributors requests of one call are the requests for the pages \<open>1, ..., k\<close> in order,
  for some \<open>k \<le> 100\<close>. When the cache holds no fresh entry and the upstream never returns
  an empty page, the loop stops at the ceiling: exactly the pages \<open>1, ..., 100\<close> are requested.
  And wherever the loop stands, a page with zero items ends it: that request is its last
  and the result is what was accumulated before.
\<close>

theorem unbounded_fetch_page_ceiling:
  "(\<exists>k. k \<le> 100
       \<and> filter is_contributors_request (new_events w (snd (getAllContributors up w repo inc))) =
           page_requests repo 1 k)
   \<and> (\<not> fresh w (cache w (all_cacheKey repo inc))
        \<and> (\<forall>k p. \<exists>c cs. contributors_api up k repo 100 (Some p) = Inr (c # cs))
      \<longrightarrow> filter is_contributors_request (new_events w (snd (getAllContributors up w repo inc))) =
            page_requests repo 1 100)
   \<and> (contributors_api up (length (trace v)) repo 100 (Some page) = Inr []
      \<longrightarrow> fst (fetch_pages up repo page acc v) = Inr acc
          \<and> new_events v (snd (fetch_pages up repo page acc v)) = page_requests repo page 1)"
proof (intro conjI impI)
  obtain r w' where run: "getAllContributors up w repo inc = (r, w')"
    by (cases "getAllContributors up w repo inc")
  let ?key = "all_cacheKey repo inc"
  show "\<exists>k. k \<le> 100
       \<and> filter is_contributors_request (new_events w (snd (getAllContributors up w repo inc))) =
           page_requests repo 1 k"
  proof (cases "fresh w (cache w ?key)")
    case True
    then obtain e where "cache w ?key = Some e" "now w - timestamp e < CACHE_DURATION"
      by (auto simp: fresh_def split: option.splits)
    from getAllContributors_hit [OF this, of up]
    have "new_events w (snd (getAllContributors up w repo inc)) = [CacheGet ?key]"
      by simp
    then show ?thesis by (intro exI [of _ 0]) (simp add: page_requests_def)
  next
    case False
    from getAllContributors_requests [OF False run]
    obtain k where "k \<le> 100"
        "filter is_contributors_request (new_events w w') = page_requests repo 1 k"
      by metis
    with run show ?thesis by auto
  qed
next
  assume a: "\<not> fresh w (cache w (all_cacheKey repo inc))
        \<and> (\<forall>k p. \<exists>c cs. contributors_api up k repo 100 (Some p) = Inr (c # cs))"
  obtain r w' where run: "getAllContributors up w repo inc = (r, w')"
    by (cases "getAllContributors up w repo inc")
  let ?key = "all_cacheKey repo inc"
  from a have miss: "\<not> fresh w (cache w ?key)" by simp
  from getAllContributors_requests [OF miss run]
  obtain p w1 k where fp: "fetch_pages up repo 1 [] (logged (CacheGet ?key) w) = (p, w1)"
      and tr: "trace w1 = trace w @ CacheGet ?key # page_requests repo 1 k"
      and f: "filter is_contributors_request (new_events w w') = page_requests repo 1 k"
    by metis
  from a have "\<And>k p. \<exists>c cs. contributors_api up k repo 100 (Some p) = Inr (c # cs)" by blast
  from fetch_pages_endless [OF this _ fp]
  have "trace w1 = trace w @ CacheGet ?key # page_requests repo 1 100" by simp
  with tr have "page_requests repo 1 k = page_requests repo 1 100" by simp
  with f run show "filter is_contributors_request (new_events w (snd (getAllContributors up w repo inc))) =
            page_requests repo 1 100" by simp
next
  assume e: "contributors_api up (length (trace v)) repo 100 (Some page) = Inr []"
  then show "fst (fetch_pages up repo page acc v) = Inr acc"
    by (simp add: fetch_pages.simps [of up repo page acc v] Let_def)
  from e show "new_events v (snd (fetch_pages up repo page acc v)) = page_requests repo page 1"
    by (simp add: fetch_pages.simps [of up repo page acc v] Let_def page_requests_def)
qed

text \<open>
  The theorem at an upstream whose every page holds one contributor, and at one whose
  first page is empty.
\<close>

theorem unbounded_fetch_page_ceiling_witness:
  "filter is_contributors_request
     (new_events world0 (snd (getAllContributors upstream_endless world0 ''o/r'' False))) =
   page_requests ''o/r'' 1 100
   \<and> fst (fetch_pages (upstream_with 0) ''o/r'' 1 [] world0) = Inr []
   \<and> new_events world0 (snd (fetch_pages (upstream_with 0) ''o/r'' 1 [] world0)) =
       page_requests ''o/r'' 1 1"
  using unbounded_fetch_page_ceiling [where w = world0 and up = upstream_endless
          and repo = "''o/r''" and inc = False]
        unbounded_fetch_page_ceiling [where v = world0 and up = "upstream_with 0"
          and repo = "''o/r''" and page = 1 and acc = "[]"]
  by (simp add: world0_def upstream_endless_def upstream_with_def fresh_def)

subsection \<open>The freshness window of the cache\<close>




subsection \<open>What the handlers pass to the renderer\<close>

lemma getContributors_no_render:
  assumes "getContributors up w repo limit inc = (r, w')"
  shows "renders (new_events w w') = [] \<and> length (trace w) \<le> length (trace w')"
proof (cases "fresh w (cache w (contributors_cacheKey repo limit inc))")
  case True
  with assms have "w' = logged (CacheGet (contributors_cacheKey repo limit inc)) w"
    by (auto simp: getContributors_def Let_def fresh_def split: option.splits)
  then show ?thesis by simp
next
  case False
  from getContributors_miss [OF False assms] show ?thesis
    by (cases "contributors_api up (Suc (length (trace w))) repo (min limit 100) None") auto
qed

lemma getAllContributors_no_render:
  assumes "getAllContributors up w repo inc = (r, w')"
  shows "renders (new_events w w') = [] \<and> length (trace w) \<le> length (trace w')"
proof (cases "fresh w (cache w (all_cacheKey repo inc))")
  case True
  with assms have "w' = logged (CacheGet (all_cacheKey repo inc)) w"
    by (auto simp: getAllContributors_def Let_def fresh_def split: option.splits)
  then show ?thesis by simp
next
  case False
  have "renders (new_events w w') = []"
    by (rule getAllContributors_requests [OF False assms])
  moreover have "length (trace w) \<le> length (trace w')"
    by (rule getAllContributors_requests [OF False assms])
  ultimately show ?thesis by simp
qed

lemma new_events_logged:
  "length (trace w) \<le> length (trace w1) \<Longrightarrow> new_events w (logged e w1) = new_events w w1 @ [e]"
  by (simp add: new_events_def)

lemma badge_cases:
  obtains (rejected) m where "badge up w q = (Json 400 m, w)"
  | (all) repo r w1 where
      "q_repo q = Some repo" "repo \<noteq> []" "\<not> bad_repo_format repo"
      "with_default ''horizontal'' (q_style q) \<in> {''horizontal'', ''grid''}"
      "with_default ''light'' (q_theme q) \<in> {''light'', ''dark''}"
      "with_default ''10'' (q_limit q) = ''all''"
      "getAllContributors up w repo (with_default ''true'' (q_avatars q) \<noteq> ''false'') = (r, w1)"
      "badge up w q =
         (case r of
            Inl e \<Rightarrow> (badge_catch e, w1)
          | Inr cs \<Rightarrow>
              if cs = [] then (Json 404 ''No contributors found'', w1)
              else send_badge cs (badge_final q cs) (with_default ''light'' (q_theme q)) 300 w1)"
  | (bounded) repo n r w1 where
      "q_repo q = Some repo" "repo \<noteq> []" "\<not> bad_repo_format repo"
      "with_default ''horizontal'' (q_style q) \<in> {''horizontal'', ''grid''}"
      "with_default ''light'' (q_theme q) \<in> {''light'', ''dark''}"
      "with_default ''10'' (q_limit q) \<noteq> ''all''"
      "parseInt (with_default ''10'' (q_limit q)) = Some n" "1 \<le> n" "n \<le> 100"
      "getContributors up w repo n (with_default ''true'' (q_avatars q) \<noteq> ''false'') = (r, w1)"
      "badge up w q =
         (case r of
            Inl e \<Rightarrow> (badge_catch e, w1)
          | Inr cs \<Rightarrow>
              if cs = [] then (Json 404 ''No contributors found'', w1)
              else send_badge cs (badge_final q cs) (with_default ''light'' (q_theme q)) 300 w1)"
proof -
  let ?limit = "with_default ''10'' (q_limit q)"
  let ?style = "with_default ''horizontal'' (q_style q)"
  let ?theme = "with_default ''light'' (q_theme q)"
  let ?inc = "with_default ''true'' (q_avatars q) \<noteq> ''false''"
  show thesis
  proof (cases "q_repo q")
    case None
    then have "badge up w q = (Json 400 ''Repository parameter is required'', w)"
      by (simp add: badge_def Let_def)
    then show thesis by (rule rejected)
  next
    case (Some repo)
    show thesis
    proof (cases "repo = [] \<or> bad_repo_format repo \<or> ?style \<notin> {''horizontal'', ''grid''}
                   \<or> ?theme \<notin> {''light'', ''dark''}")
      case True
      with Some have "\<exists>m. badge up w q = (Json 400 m, w)"
        by (auto simp: badge_def Let_def)
      then show thesis using rejected by blast
    next
      case False
      then have ok: "repo \<noteq> []" "\<not> bad_repo_format repo" "?style \<in> {''horizontal'', ''grid''}"
        "?theme \<in> {''light'', ''dark''}" by auto
      show thesis
      proof (cases "?limit = ''all''")
        case True
        obtain r w1 where g: "getAllContributors up w repo ?inc = (r, w1)"
          by (cases "getAllContributors up w repo ?inc")
        have "badge up w q =
         (case r of
            Inl e \<Rightarrow> (badge_catch e, w1)
          | Inr cs \<Rightarrow>
              if cs = [] then (Json 404 ''No contributors found'', w1)
              else send_badge cs (badge_final q cs) ?theme 300 w1)"
          using Some ok True g by (cases r) (auto simp: badge_def Let_def badge_final_def)
        with Some ok True g show thesis by (rule all)
      next
        case nall: False
        show thesis
        proof (cases "parseInt ?limit")
          case None
          with Some ok nall have "\<exists>m. badge up w q = (Json 400 m, w)"
            by (simp add: badge_def Let_def)
          then show thesis using rejected by blast
        next
          case (Some n)
          show thesis
          proof (cases "n < 1 \<or> n > 100")
            case True
            with Some \<open>q_repo q = Some repo\<close> ok nall have "\<exists>m. badge up w q = (Json 400 m, w)"
              by (auto simp: badge_def Let_def)
            then show thesis using rejected by blast
          next
            case False
            then have n: "1 \<le> n" "n \<le> 100" by auto
            obtain r w1 where g: "getContributors up w repo n ?inc = (r, w1)"
              by (cases "getContributors up w repo n ?inc")
            have "badge up w q =
               (case r of
                  Inl e \<Rightarrow> (badge_catch e, w1)
                | Inr cs \<Rightarrow>
                    if cs = [] then (Json 404 ''No contributors found'', w1)
                    else send_badge cs (badge_final q cs) ?theme 300 w1)"
              using Some \<open>q_repo q = Some repo\<close> ok nall n g
              by (cases r) (auto simp: badge_def Let_def badge_final_def)
            with \<open>q_repo q = Some repo\<close> ok nall Some n g show thesis by (rule bounded)
          qed
        qed
      qed
    qed
  qed
qed


lemma badge_all_cases:
  obtains (rejected) m where "badge_all up w q = (Json 400 m, w)"
  | (all) repo r w1 where
      "q_repo q = Some repo" "repo \<noteq> []" "\<not> bad_repo_format repo"
      "getAllContributors up w repo (with_default ''true'' (q_avatars q) \<noteq> ''false'') = (r, w1)"
      "badge_all up w q =
         (case r of
            Inl e \<Rightarrow> (badge_all_catch e, w1)
          | Inr cs \<Rightarrow>
              if cs = [] then (Json 404 ''No contributors found'', w1)
              else send_badge cs (if 20 < length cs then ''grid'' else with_default ''grid'' (q_style q))
                     (with_default ''light'' (q_theme q)) 3600 w1)"
proof (cases "q_repo q")
  case None
  then have "badge_all up w q = (Json 400 ''Repository parameter is required'', w)"
    by (simp add: badge_all_def Let_def)
  then show thesis by (rule rejected)
next
  case (Some repo)
  let ?inc = "with_default ''true'' (q_avatars q) \<noteq> ''false''"
  show thesis
  proof (cases "repo = [] \<or> bad_repo_format repo")
    case True
    with Some have "\<exists>m. badge_all up w q = (Json 400 m, w)"
      by (auto simp: badge_all_def Let_def)
    then show thesis using rejected by blast
  next
    case False
    then have ok: "repo \<noteq> []" "\<not> bad_repo_format repo" by auto
    obtain r w1 where g: "getAllContributors up w repo ?inc = (r, w1)"
      by (cases "getAllContributors up w repo ?inc")
    have "badge_all up w q =
         (case r of
            Inl e \<Rightarrow> (badge_all_catch e, w1)
          | Inr cs \<Rightarrow>
              if cs = [] then (Json 404 ''No contributors found'', w1)
              else send_badge cs (if 20 < length cs then ''grid'' else with_default ''grid'' (q_style q))
                     (with_default ''light'' (q_theme q)) 3600 w1)"
      using Some ok g by (cases r) (auto simp: badge_all_def Let_def)
    with Some ok g show thesis by (rule all)
  qed
qed

lemma badge_fast_cases:
  obtains (rejected) m where "badge_fast up w q = (Json 400 m, w)"
  | (all) repo r w1 where
      "q_repo q = Some repo" "repo \<noteq> []" "\<not> bad_repo_format repo"
      "with_default ''10'' (q_limit q) = ''all''"
      "getAllContributors up w repo False = (r, w1)"
      "badge_fast up w q =
         (case r of
            Inl e \<Rightarrow> (badge_fast_catch e, w1)
          | Inr cs \<Rightarrow>
              if cs = [] then (Json 404 ''No contributors found'', w1)
              else send_badge cs (badge_final q cs) (with_default ''light'' (q_theme q)) 300 w1)"
  | (bounded) repo n r w1 where
      "q_repo q = Some repo" "repo \<noteq> []" "\<not> bad_repo_format repo"
      "with_default ''10'' (q_limit q) \<noteq> ''all''"
      "parseInt (with_default ''10'' (q_limit q)) = Some n" "1 \<le> n" "n \<le> 100"
      "getContributors up w repo n False = (r, w1)"
      "badge_fast up w q =
         (case r of
            Inl e \<Rightarrow> (badge_fast_catch e, w1)
          | Inr cs \<Rightarrow>
              if cs = [] then (Json 404 ''No contributors found'', w1)
              else send_badge cs (badge_final q cs) (with_default ''light'' (q_theme q)) 300 w1)"
proof -
  let ?limit = "with_default ''10'' (q_limit q)"
  let ?theme = "with_default ''light'' (q_theme q)"
  show thesis
  proof (cases "q_repo q")
    case None
    then have "badge_fast up w q = (Json 400 ''Repository parameter is required'', w)"
      by (simp add: badge_fast_def Let_def)
    then show thesis by (rule rejected)
  next
    case (Some repo)
    show thesis
    proof (cases "repo = [] \<or> bad_repo_format repo")
      case True
      with Some have "\<exists>m. badge_fast up w q = (Json 400 m, w)"
        by (auto simp: badge_fast_def Let_def)
      then show thesis using rejected by blast
    next
      case False
      then have ok: "repo \<noteq> []" "\<not> bad_repo_format repo" by auto
      show thesis
      proof (cases "?limit = ''all''")
        case True
        obtain r w1 where g: "getAllContributors up w repo False = (r, w1)"
          by (cases "getAllContributors up w repo False")
        have "badge_fast up w q =
         (case r of
            Inl e \<Rightarrow> (badge_fast_catch e, w1)
          | Inr cs \<Rightarrow>
              if cs = [] then (Json 404 ''No contributors found'', w1)
              else send_badge cs (badge_final q cs) ?theme 300 w1)"
          using Some ok True g by (cases r) (auto simp: badge_fast_def Let_def badge_final_def)
        with Some ok True g show thesis by (rule all)
      next
        case nall: False
        show thesis
        proof (cases "parseInt ?limit")
          case None
          with Some ok nall have "\<exists>m. badge_fast up w q = (Json 400 m, w)"
            by (simp add: badge_fast_def Let_def)
          then show thesis using rejected by blast
        next
          case (Some n)
          show thesis
          proof (cases "n < 1 \<or> n > 100")
            case True
            with Some \<open>q_repo q = Some repo\<close> ok nall have "\<exists>m. badge_fast up w q = (Json 400 m, w)"
              by (auto simp: badge_fast_def Let_def)
            then show thesis using rejected by blast
          next
            case False
            then have n: "1 \<le> n" "n \<le> 100" by auto
            obtain r w1 where g: "getContributors up w repo n False = (r, w1)"
              by (cases "getContributors up w repo n False")
            have "badge_fast up w q =
               (case r of
                  Inl e \<Rightarrow> (badge_fast_catch e, w1)
                | Inr cs \<Rightarrow>
                    if cs = [] then (Json 404 ''No contributors found'', w1)
                    else send_badge cs (badge_final q cs) ?theme 300 w1)"
              using Some \<open>q_repo q = Some repo\<close> ok nall n g
              by (cases r) (auto simp: badge_fast_def Let_def badge_final_def)
            with \<open>q_repo q = Some repo\<close> ok nall Some n g show thesis by (rule bounded)
          qed
        qed
      qed
    qed
  qed
qed

text \<open>What each handler passes to the renderer, if it calls it.\<close>

lemma badge_renders:
  "renders (new_events w (snd (badge up w q))) = []
   \<or> (\<exists>cs. cs \<noteq> [] \<and> renders (new_events w (snd (badge up w q))) =
               [(cs, badge_final q cs, with_default ''light'' (q_theme q))])"
proof (cases rule: badge_cases [of up w q])
  case (rejected m)
  then show ?thesis by simp
next
  case (all repo r w1)
  from getAllContributors_no_render [OF all(7)] show ?thesis
    unfolding all(8) by (cases r) (simp_all add: send_badge_def new_events_logged)
next
  case (bounded repo n r w1)
  from getContributors_no_render [OF bounded(10)] show ?thesis
    unfolding bounded(11) by (cases r) (simp_all add: send_badge_def new_events_logged)
qed

lemma badge_fast_renders:
  "renders (new_events w (snd (badge_fast up w q))) = []
   \<or> (\<exists>cs. cs \<noteq> [] \<and> renders (new_events w (snd (badge_fast up w q))) =
               [(cs, badge_final q cs, with_default ''light'' (q_theme q))])"
proof (cases rule: badge_fast_cases [of up w q])
  case (rejected m)
  then show ?thesis by simp
next
  case (all repo r w1)
  from getAllContributors_no_render [OF all(5)] show ?thesis
    unfolding all(6) by (cases r) (simp_all add: send_badge_def new_events_logged)
next
  case (bounded repo n r w1)
  from getContributors_no_render [OF bounded(8)] show ?thesis
    unfolding bounded(9) by (cases r) (simp_all add: send_badge_def new_events_logged)
qed

lemma badge_all_renders:
  "renders (new_events w (snd (badge_all up w q))) = []
   \<or> (\<exists>cs. cs \<noteq> [] \<and> renders (new_events w (snd (badge_all up w q))) =
               [(cs, if 20 < length cs then ''grid'' else with_default ''grid'' (q_style q),
                 with_default ''light'' (q_theme q))])"
proof (cases rule: badge_all_cases [of up w q])
  case (rejected m)
  then show ?thesis by simp
next
  case (all repo r w1)
  from getAllContributors_no_render [OF all(4)] show ?thesis
    unfolding all(5) by (cases r) (simp_all add: send_badge_def new_events_logged)
qed

lemma badge_bounded:
  assumes "q_repo q = Some repo" "slash_count repo = 1"
      and "with_default ''horizontal'' (q_style q) \<in> {''horizontal'', ''grid''}"
      and "with_default ''light'' (q_theme q) \<in> {''light'', ''dark''}"
      and "with_default ''10'' (q_limit q) \<noteq> ''all''"
      and "parseInt (with_default ''10'' (q_limit q)) = Some n" "1 \<le> n" "n \<le> 100"
  shows "badge up w q =
     (case getContributors up w repo n (with_default ''true'' (q_avatars q) \<noteq> ''false'') of
        (Inl e, w1) \<Rightarrow> (badge_catch e, w1)
      | (Inr cs, w1) \<Rightarrow>
          if cs = [] then (Json 404 ''No contributors found'', w1)
          else send_badge cs (with_default ''horizontal'' (q_style q))
                 (with_default ''light'' (q_theme q)) 300 w1)"
proof -
  from assms(2) have "\<not> bad_repo_format repo" "repo \<noteq> []"
    by (auto simp: bad_repo_format_iff slash_count_def)
  with assms show ?thesis
    by (auto simp: badge_def Let_def split: prod.splits sum.splits)
qed

lemma badge_unbounded:
  assumes "q_repo q = Some repo" "slash_count repo = 1"
      and "with_default ''horizontal'' (q_style q) \<in> {''horizontal'', ''grid''}"
      and "with_default ''light'' (q_theme q) \<in> {''light'', ''dark''}"
      and "with_default ''10'' (q_limit q) = ''all''"
  shows "badge up w q =
     (case getAllContributors up w repo (with_default ''true'' (q_avatars q) \<noteq> ''false'') of
        (Inl e, w1) \<Rightarrow> (badge_catch e, w1)
      | (Inr cs, w1) \<Rightarrow>
          if cs = [] then (Json 404 ''No contributors found'', w1)
          else send_badge cs
                 (if 20 < length cs \<and> with_default ''horizontal'' (q_style q) = ''horizontal''
                  then ''grid'' else with_default ''horizontal'' (q_style q))
                 (with_default ''light'' (q_theme q)) 300 w1)"
proof -
  from assms(2) have "\<not> bad_repo_format repo" "repo \<noteq> []"
    by (auto simp: bad_repo_format_iff slash_count_def)
  with assms show ?thesis
    by (auto simp: badge_def Let_def split: prod.splits sum.splits)
qed

lemma render_summary_simps [simp]:
  "render_summary [] = []"
  "render_summary (es @ fs) = render_summary es @ render_summary fs"
  "render_summary (Render cs s t # es) = (length cs, s, t) # render_summary es"
  "render_summary (CacheGet k # es) = render_summary es"
  "render_summary (CacheSet k # es) = render_summary es"
  "render_summary (ContributorsRequest r per_page page # es) = render_summary es"
  "render_summary (AvatarRequest url # es) = render_summary es"
  "render_summary (RepoRequest r # es) = render_summary es"
  "render_summary (avatar_requests raws) = []"
  "render_summary (page_requests repo first n) = []"
  by (simp_all add: render_summary_def)

lemma world0_simps [simp]: "trace world0 = []" "cache world0 k = None" "now world0 = 0"
  by (simp_all add: world0_def)

lemma new_events_world0 [simp]: "new_events world0 w' = trace w'"
  by (simp add: new_events_def)

lemma upstream_with_simps [simp]:
  "contributors_api (upstream_with n) k repo per_page page =
     (if page = None \<or> page = Some 1 then Inr (replicate n alice) else Inr [])"
  "avatar_api (upstream_with n) k url = AvatarFailed"
  by (simp_all add: upstream_with_def)

lemma request_simps [simp]:
  "q_repo (request repo) = Some repo" "q_limit (request repo) = None"
  "q_style (request repo) = None" "q_theme (request repo) = None" "q_avatars (request repo) = None"
  "q_repo (request_limit repo l) = Some repo" "q_limit (request_limit repo l) = Some l"
  "q_style (request_limit repo l) = None" "q_theme (request_limit repo l) = None"
  "q_avatars (request_limit repo l) = None"
  by (simp_all add: request_def request_limit_def)

text \<open>
  Claim C1, as stated, fails. \<open>/badge?repo=o/r&limit=25\<close> with the default style
  \<open>horizontal\<close>, against an upstream that lists 21 contributors, calls the renderer once,
  with 21 contributors and the style \<open>horizontal\<close>: a numeric limit does not escalate.
\<close>

theorem numeric_limit_keeps_horizontal:
  "render_summary (trace (snd (badge (upstream_with 21) world0 (request_limit ''o/r'' ''25'')))) =
     [(21, ''horizontal'', ''light'')]"
proof -
  let ?up = "upstream_with 21"
  obtain r w1 where g: "getContributors ?up world0 ''o/r'' 25 True = (r, w1)"
    by (cases "getContributors ?up world0 ''o/r'' 25 True")
  have miss: "\<not> fresh world0 (cache world0 (contributors_cacheKey ''o/r'' 25 True))"
    by (simp add: fresh_def)
  from getContributors_miss [OF miss g]
  obtain cs where cs: "r = Inr cs" "length cs = 21"
      "trace w1 = [CacheGet (contributors_cacheKey ''o/r'' 25 True), ContributorsRequest ''o/r'' 25 None]
                   @ avatar_requests (replicate 21 alice)
                   @ [CacheSet (contributors_cacheKey ''o/r'' 25 True)]"
    by auto
  have p: "parseInt ''25'' = Some 25" by (simp add: parseInt_defs)
  have "badge ?up world0 (request_limit ''o/r'' ''25'') = send_badge cs ''horizontal'' ''light'' 300 w1"
    using cs(1,2) g
    by (subst badge_bounded [where repo = "''o/r''" and n = 25]) (auto simp: p slash_count_def)
  then show ?thesis using cs by (simp add: send_badge_def)
qed

lemma badge_all_fetch:
  assumes "q_repo q = Some repo" "slash_count repo = 1"
  shows "badge_all up w q =
     (case getAllContributors up w repo (with_default ''true'' (q_avatars q) \<noteq> ''false'') of
        (Inl e, w1) \<Rightarrow> (badge_all_catch e, w1)
      | (Inr cs, w1) \<Rightarrow>
          if cs = [] then (Json 404 ''No contributors found'', w1)
          else send_badge cs (if 20 < length cs then ''grid'' else with_default ''grid'' (q_style q))
                 (with_default ''light'' (q_theme q)) 3600 w1)"
proof -
  from assms(2) have "\<not> bad_repo_format repo" "repo \<noteq> []"
    by (auto simp: bad_repo_format_iff slash_count_def)
  with assms show ?thesis
    by (auto simp: badge_all_def Let_def split: prod.splits sum.splits)
qed

lemma badge_fast_bounded:
  assumes "q_repo q = Some repo" "slash_count repo = 1"
      and "with_default ''10'' (q_limit q) \<noteq> ''all''"
      and "parseInt (with_default ''10'' (q_limit q)) = Some n" "1 \<le> n" "n \<le> 100"
  shows "badge_fast up w q =
     (case getContributors up w repo n False of
        (Inl e, w1) \<Rightarrow> (badge_fast_catch e, w1)
      | (Inr cs, w1) \<Rightarrow>
          if cs = [] then (Json 404 ''No contributors found'', w1)
          else send_badge cs (with_default ''horizontal'' (q_style q))
                 (with_default ''light'' (q_theme q)) 300 w1)"
proof -
  from assms(2) have "\<not> bad_repo_format repo" "repo \<noteq> []"
    by (auto simp: bad_repo_format_iff slash_count_def)
  with assms show ?thesis
    by (auto simp: badge_fast_def Let_def split: prod.splits sum.splits)
qed

lemma badge_fast_unbounded:
  assumes "q_repo q = Some repo" "slash_count repo = 1"
      and "with_default ''10'' (q_limit q) = ''all''"
  shows "badge_fast up w q =
     (case getAllContributors up w repo False of
        (Inl e, w1) \<Rightarrow> (badge_fast_catch e, w1)
      | (Inr cs, w1) \<Rightarrow>
          if cs = [] then (Json 404 ''No contributors found'', w1)
          else send_badge cs
                 (if 20 < length cs \<and> with_default ''horizontal'' (q_style q) = ''horizontal''
                  then ''grid'' else with_default ''horizontal'' (q_style q))
                 (with_default ''light'' (q_theme q)) 300 w1)"
proof -
  from assms(2) have "\<not> bad_repo_format repo" "repo \<noteq> []"
    by (auto simp: bad_repo_format_iff slash_count_def)
  with assms show ?thesis
    by (auto simp: badge_fast_def Let_def split: prod.splits sum.splits)
qed

lemma fetch_pages_upstream_with:
  "0 < n \<Longrightarrow> fst (fetch_pages (upstream_with n) repo 1 [] w) = Inr (replicate n alice)"
  by (simp add: fetch_pages.simps Let_def)

lemma fetch_pages_upstream_empty:
  "fst (fetch_pages (upstream_with 0) repo 1 [] w) = Inr []"
  by (simp add: fetch_pages.simps Let_def)

text \<open>The run of \<open>/badge?repo=o/r&limit=all\<close> against 21 contributors.\<close>

lemma escalated_run:
  "render_summary (trace (snd (badge (upstream_with 21) world0 (request_limit ''o/r'' ''all'')))) =
     [(21, ''grid'', ''light'')]"
proof -
  let ?up = "upstream_with 21"
  obtain r w' where g: "getAllContributors ?up world0 ''o/r'' True = (r, w')"
    by (cases "getAllContributors ?up world0 ''o/r'' True")
  have miss: "\<not> fresh world0 (cache world0 (all_cacheKey ''o/r'' True))"
    by (simp add: fresh_def)
  from getAllContributors_miss [OF miss g]
  obtain p w1 k where fp: "fetch_pages ?up ''o/r'' 1 [] (logged (CacheGet (all_cacheKey ''o/r'' True)) world0) = (p, w1)"
      and tr: "trace w1 = trace world0 @ CacheGet (all_cacheKey ''o/r'' True) # page_requests ''o/r'' 1 k"
      and c: "case p of
                 Inl f \<Rightarrow> r = Inl (classify f) \<and> w' = w1 \<and> cache w' = cache world0
               | Inr raws \<Rightarrow>
                   \<exists>cs. r = Inr cs \<and> length cs = length raws
                     \<and> cache w' = (cache world0)(all_cacheKey ''o/r'' True \<mapsto> \<lparr>data = cs, timestamp = now w'\<rparr>)
                     \<and> now world0 \<le> now w'
                     \<and> trace w' = trace w1 @ avatar_requests (take (if True then 50 else 0) raws)
                                     @ [CacheSet (all_cacheKey ''o/r'' True)]
                     \<and> (\<forall>j < length raws. cs ! j =
                           contributor_record (raws ! j)
                             (if True \<and> j < 50
                              then data_uri (avatar_api ?up (length (trace w1) + j) (raw_avatar_url (raws ! j)))
                              else None) j)"
    by blast
  from fp fetch_pages_upstream_with [of 21 "''o/r''" "logged (CacheGet (all_cacheKey ''o/r'' True)) world0"]
  have "p = Inr (replicate 21 alice)" by simp
  with c obtain cs where cs: "r = Inr cs" "length cs = 21"
      "trace w' = trace w1 @ avatar_requests (take 50 (replicate 21 alice)) @ [CacheSet (all_cacheKey ''o/r'' True)]"
    by auto
  have "badge ?up world0 (request_limit ''o/r'' ''all'') = send_badge cs ''grid'' ''light'' 300 w'"
    using cs(1,2) g
    by (subst badge_unbounded [where repo = "''o/r''"]) (auto simp: slash_count_def)
  then show ?thesis using cs tr by (simp add: send_badge_def)
qed

lemma render_summary_cases:
  assumes "renders es = [] \<or> (\<exists>cs. cs \<noteq> [] \<and> renders es = [(cs, f cs, t)])"
      and "(n, fs, th) \<in> set (render_summary es)"
  shows "\<exists>cs. cs \<noteq> [] \<and> n = length cs \<and> fs = f cs \<and> th = t"
  using assms by (auto simp: render_summary_def)

text \<open>
  Claim C1, amended. Whenever \<open>/badge\<close> or \<open>/badge/fast\<close> calls the renderer with \<open>n\<close>
  contributors, the style it passes is \<open>grid\<close> if the request has \<open>limit=all\<close>, \<open>n > 20\<close>
  and the requested style is \<open>horizontal\<close>; otherwise it is the requested style, so with
  a numeric limit the style is never changed. Whenever \<open>/badge/all\<close> calls the renderer
  with \<open>n > 20\<close> contributors the style is \<open>grid\<close>, and otherwise the requested one.
\<close>

theorem style_escalation:
  "((n, fs, th) \<in> set (render_summary (new_events w (snd (badge up w q))))
      \<longrightarrow> fs = (if with_default ''10'' (q_limit q) = ''all'' \<and> 20 < n
                     \<and> with_default ''horizontal'' (q_style q) = ''horizontal''
                  then ''grid'' else with_default ''horizontal'' (q_style q)))
   \<and> ((n, fs, th) \<in> set (render_summary (new_events w (snd (badge_fast up w q))))
      \<longrightarrow> fs = (if with_default ''10'' (q_limit q) = ''all'' \<and> 20 < n
                     \<and> with_default ''horizontal'' (q_style q) = ''horizontal''
                  then ''grid'' else with_default ''horizontal'' (q_style q)))
   \<and> ((n, fs, th) \<in> set (render_summary (new_events w (snd (badge_all up w q))))
      \<longrightarrow> fs = (if 20 < n then ''grid'' else with_default ''grid'' (q_style q)))"
proof (intro conjI impI)
  assume "(n, fs, th) \<in> set (render_summary (new_events w (snd (badge up w q))))"
  from render_summary_cases [OF badge_renders this]
  show "fs = (if with_default ''10'' (q_limit q) = ''all'' \<and> 20 < n
                     \<and> with_default ''horizontal'' (q_style q) = ''horizontal''
                  then ''grid'' else with_default ''horizontal'' (q_style q))"
    by (auto simp: badge_final_def)
next
  assume "(n, fs, th) \<in> set (render_summary (new_events w (snd (badge_fast up w q))))"
  from render_summary_cases [OF badge_fast_renders this]
  show "fs = (if with_default ''10'' (q_limit q) = ''all'' \<and> 20 < n
                     \<and> with_default ''horizontal'' (q_style q) = ''horizontal''
                  then ''grid'' else with_default ''horizontal'' (q_style q))"
    by (auto simp: badge_final_def)
next
  assume "(n, fs, th) \<in> set (render_summary (new_events w (snd (badge_all up w q))))"
  from render_summary_cases [OF badge_all_renders this]
  show "fs = (if 20 < n then ''grid'' else with_default ''grid'' (q_style q))"
    by auto
qed

text \<open>The theorem at \<open>/badge?repo=o/r&limit=all\<close> against 21 contributors.\<close>

theorem style_escalation_witness:
  "(21, ''grid'', ''light'') \<in>
     set (render_summary (new_events world0
            (snd (badge (upstream_with 21) world0 (request_limit ''o/r'' ''all'')))))
   \<and> ''grid'' =
       (if with_default ''10'' (q_limit (request_limit ''o/r'' ''all'')) = ''all'' \<and> (20::nat) < 21
           \<and> with_default ''horizontal'' (q_style (request_limit ''o/r'' ''all'')) = ''horizontal''
        then ''grid'' else with_default ''horizontal'' (q_style (request_limit ''o/r'' ''all'')))"
proof -
  have h: "(21, ''grid'', ''light'') \<in>
     set (render_summary (new_events world0
            (snd (badge (upstream_with 21) world0 (request_limit ''o/r'' ''all'')))))"
    by (simp add: escalated_run)
  from style_escalation [THEN conjunct1, THEN mp, OF h] h show ?thesis by simp
qed

lemma grid_cols_pos: "0 < n \<Longrightarrow> 0 < grid_cols n"
proof -
  assume "0 < n"
  then have "0 < sqrt (real n)" by simp
  then have "0 < \<lceil>sqrt (real n)\<rceil>" by (simp only: zero_less_ceiling)
  then show ?thesis by (simp add: grid_cols_def)
qed

lemma render_summary_empty: "renders es = [] \<Longrightarrow> render_summary es = []"
  by (simp add: render_summary_def)

lemma not_found_after_fetch:
  assumes "renders (new_events w w1) = [] \<and> length (trace w) \<le> length (trace w1)"
      and "handler = (Json 404 m, w1)"
  shows "status (fst handler) = 404 \<and> render_summary (new_events w (snd handler)) = []"
  using assms by (simp add: render_summary_empty)

text \<open>
  Claim C9. Whenever \<open>/badge\<close>, \<open>/badge/all\<close> or \<open>/badge/fast\<close> calls the renderer, the
  sequence it passes is not empty, so the column count of the grid is positive and the
  row count is a number. When the request passes validation and the helper that fetches
  for it returns the empty list, the answer is 404 and the renderer is not called.
\<close>

theorem empty_result_is_404:
  "((n, fs, th) \<in> set (render_summary (new_events w (snd (badge up w q))))
      \<longrightarrow> 0 < n \<and> 0 < grid_cols n \<and> grid_rows n (grid_cols n) \<noteq> None)
   \<and> ((n, fs, th) \<in> set (render_summary (new_events w (snd (badge_all up w q))))
      \<longrightarrow> 0 < n \<and> 0 < grid_cols n \<and> grid_rows n (grid_cols n) \<noteq> None)
   \<and> ((n, fs, th) \<in> set (render_summary (new_events w (snd (badge_fast up w q))))
      \<longrightarrow> 0 < n \<and> 0 < grid_cols n \<and> grid_rows n (grid_cols n) \<noteq> None)
   \<and> (q_repo q = Some repo \<and> slash_count repo = 1
        \<and> with_default ''horizontal'' (q_style q) \<in> {''horizontal'', ''grid''}
        \<and> with_default ''light'' (q_theme q) \<in> {''light'', ''dark''}
        \<and> (with_default ''10'' (q_limit q) = ''all''
             \<and> fst (getAllContributors up w repo (with_default ''true'' (q_avatars q) \<noteq> ''false'')) = Inr []
           \<or> with_default ''10'' (q_limit q) \<noteq> ''all''
             \<and> parseInt (with_default ''10'' (q_limit q)) = Some k \<and> 1 \<le> k \<and> k \<le> 100
             \<and> fst (getContributors up w repo k (with_default ''true'' (q_avatars q) \<noteq> ''false'')) = Inr [])
      \<longrightarrow> status (fst (badge up w q)) = 404
          \<and> render_summary (new_events w (snd (badge up w q))) = [])
   \<and> (q_repo q = Some repo \<and> slash_count repo = 1
        \<and> fst (getAllContributors up w repo (with_default ''true'' (q_avatars q) \<noteq> ''false'')) = Inr []
      \<longrightarrow> status (fst (badge_all up w q)) = 404
          \<and> render_summary (new_events w (snd (badge_all up w q))) = [])
   \<and> (q_repo q = Some repo \<and> slash_count repo = 1
        \<and> (with_default ''10'' (q_limit q) = ''all''
             \<and> fst (getAllContributors up w repo False) = Inr []
           \<or> with_default ''10'' (q_limit q) \<noteq> ''all''
             \<and> parseInt (with_default ''10'' (q_limit q)) = Some k \<and> 1 \<le> k \<and> k \<le> 100
             \<and> fst (getContributors up w repo k False) = Inr [])
      \<longrightarrow> status (fst (badge_fast up w q)) = 404
          \<and> render_summary (new_events w (snd (badge_fast up w q))) = [])"
proof -
  let ?inc = "with_default ''true'' (q_avatars q) \<noteq> ''false''"
  have pos: "0 < m \<Longrightarrow> 0 < m \<and> 0 < grid_cols m \<and> grid_rows m (grid_cols m) \<noteq> None" for m
    using grid_cols_pos [of m] by (simp add: grid_rows_code)
  have a1: "(n, fs, th) \<in> set (render_summary (new_events w (snd (badge up w q))))
      \<longrightarrow> 0 < n \<and> 0 < grid_cols n \<and> grid_rows n (grid_cols n) \<noteq> None"
  proof
    assume "(n, fs, th) \<in> set (render_summary (new_events w (snd (badge up w q))))"
    from render_summary_cases [OF badge_renders this] have "0 < n" by auto
    then show "0 < n \<and> 0 < grid_cols n \<and> grid_rows n (grid_cols n) \<noteq> None" by (rule pos)
  qed
  have a2: "(n, fs, th) \<in> set (render_summary (new_events w (snd (badge_all up w q))))
      \<longrightarrow> 0 < n \<and> 0 < grid_cols n \<and> grid_rows n (grid_cols n) \<noteq> None"
  proof
    assume "(n, fs, th) \<in> set (render_summary (new_events w (snd (badge_all up w q))))"
    from render_summary_cases [OF badge_all_renders this] have "0 < n" by auto
    then show "0 < n \<and> 0 < grid_cols n \<and> grid_rows n (grid_cols n) \<noteq> None" by (rule pos)
  qed
  have a3: "(n, fs, th) \<in> set (render_summary (new_events w (snd (badge_fast up w q))))
      \<longrightarrow> 0 < n \<and> 0 < grid_cols n \<and> grid_rows n (grid_cols n) \<noteq> None"
  proof
    assume "(n, fs, th) \<in> set (render_summary (new_events w (snd (badge_fast up w q))))"
    from render_summary_cases [OF badge_fast_renders this] have "0 < n" by auto
    then show "0 < n \<and> 0 < grid_cols n \<and> grid_rows n (grid_cols n) \<noteq> None" by (rule pos)
  qed
  have b1: "status (fst (badge up w q)) = 404
          \<and> render_summary (new_events w (snd (badge up w q))) = []"
    if v: "q_repo q = Some repo" "slash_count repo = 1"
        "with_default ''horizontal'' (q_style q) \<in> {''horizontal'', ''grid''}"
        "with_default ''light'' (q_theme q) \<in> {''light'', ''dark''}"
      and f: "with_default ''10'' (q_limit q) = ''all''
             \<and> fst (getAllContributors up w repo ?inc) = Inr []
           \<or> with_default ''10'' (q_limit q) \<noteq> ''all''
             \<and> parseInt (with_default ''10'' (q_limit q)) = Some k \<and> 1 \<le> k \<and> k \<le> 100
             \<and> fst (getContributors up w repo k ?inc) = Inr []"
  proof -
    from f show ?thesis
    proof (elim disjE conjE)
      assume l: "with_default ''10'' (q_limit q) = ''all''"
        and e: "fst (getAllContributors up w repo ?inc) = Inr []"
      obtain w1 where g: "getAllContributors up w repo ?inc = (Inr [], w1)"
        using e by (cases "getAllContributors up w repo ?inc") simp
      show ?thesis
        by (rule not_found_after_fetch [OF getAllContributors_no_render [OF g]])
           (simp add: badge_unbounded [OF v l] g)
    next
      assume l: "with_default ''10'' (q_limit q) \<noteq> ''all''"
        "parseInt (with_default ''10'' (q_limit q)) = Some k" "1 \<le> k" "k \<le> 100"
        and e: "fst (getContributors up w repo k ?inc) = Inr []"
      obtain w1 where g: "getContributors up w repo k ?inc = (Inr [], w1)"
        using e by (cases "getContributors up w repo k ?inc") simp
      show ?thesis
        by (rule not_found_after_fetch [OF getContributors_no_render [OF g]])
           (simp add: badge_bounded [OF v l] g)
    qed
  qed
  have b2: "status (fst (badge_all up w q)) = 404
          \<and> render_summary (new_events w (snd (badge_all up w q))) = []"
    if v: "q_repo q = Some repo" "slash_count repo = 1"
      and e: "fst (getAllContributors up w repo ?inc) = Inr []"
  proof -
    obtain w1 where g: "getAllContributors up w repo ?inc = (Inr [], w1)"
      using e by (cases "getAllContributors up w repo ?inc") simp
    show ?thesis
      by (rule not_found_after_fetch [OF getAllContributors_no_render [OF g]])
         (simp add: badge_all_fetch [OF v] g)
  qed
  have b3: "status (fst (badge_fast up w q)) = 404
          \<and> render_summary (new_events w (snd (badge_fast up w q))) = []"
    if v: "q_repo q = Some repo" "slash_count repo = 1"
      and f: "with_default ''10'' (q_limit q) = ''all''
             \<and> fst (getAllContributors up w repo False) = Inr []
           \<or> with_default ''10'' (q_limit q) \<noteq> ''all''
             \<and> parseInt (with_default ''10'' (q_limit q)) = Some k \<and> 1 \<le> k \<and> k \<le> 100
             \<and> fst (getContributors up w repo k False) = Inr []"
  proof -
    from f show ?thesis
    proof (elim disjE conjE)
      assume l: "with_default ''10'' (q_limit q) = ''all''"
        and e: "fst (getAllContributors up w repo False) = Inr []"
      obtain w1 where g: "getAllContributors up w repo False = (Inr [], w1)"
        using e by (cases "getAllContributors up w repo False") simp
      show ?thesis
        by (rule not_found_after_fetch [OF getAllContributors_no_render [OF g]])
           (simp add: badge_fast_unbounded [OF v l] g)
    next
      assume l: "with_default ''10'' (q_limit q) \<noteq> ''all''"
        "parseInt (with_default ''10'' (q_limit q)) = Some k" "1 \<le> k" "k \<le> 100"
        and e: "fst (getContributors up w repo k False) = Inr []"
      obtain w1 where g: "getContributors up w repo k False = (Inr [], w1)"
        using e by (cases "getContributors up w repo k False") simp
      show ?thesis
        by (rule not_found_after_fetch [OF getContributors_no_render [OF g]])
           (simp add: badge_fast_bounded [OF v l] g)
    qed
  qed
  from a1 a2 a3 b1 b2 b3 show ?thesis by blast
qed

lemma empty_bounded_fetch:
  "fst (getContributors (upstream_with 0) world0 ''o/r'' 10 inc) = Inr []"
  by (simp add: getContributors_def fresh_def Let_def)

lemma empty_unbounded_fetch:
  "fst (getAllContributors (upstream_with 0) world0 ''o/r'' inc) = Inr []"
proof -
  obtain p w1 where fp: "fetch_pages (upstream_with 0) ''o/r'' 1 []
      (logged (CacheGet (all_cacheKey ''o/r'' inc)) world0) = (p, w1)"
    by (cases "fetch_pages (upstream_with 0) ''o/r'' 1 [] (logged (CacheGet (all_cacheKey ''o/r'' inc)) world0)")
  with fetch_pages_upstream_empty [of "''o/r''" "logged (CacheGet (all_cacheKey ''o/r'' inc)) world0"]
  have "p = Inr []" by simp
  with fp show ?thesis
    by (simp add: getAllContributors_def fresh_def Let_def process_batches.simps)
qed

text \<open>
  The theorem at the escalated run above and at an upstream without contributors.
\<close>

theorem empty_result_is_404_witness:
  "(21, ''grid'', ''light'') \<in>
      set (render_summary (new_events world0
             (snd (badge (upstream_with 21) world0 (request_limit ''o/r'' ''all'')))))
   \<and> (0::nat) < 21 \<and> 0 < grid_cols 21 \<and> grid_rows 21 (grid_cols 21) \<noteq> None
   \<and> status (fst (badge (upstream_with 0) world0 (request ''o/r''))) = 404
   \<and> render_summary (new_events world0 (snd (badge (upstream_with 0) world0 (request ''o/r'')))) = []
   \<and> status (fst (badge_all (upstream_with 0) world0 (request ''o/r''))) = 404
   \<and> status (fst (badge_fast (upstream_with 0) world0 (request_limit ''o/r'' ''all''))) = 404"
proof -
  have h: "(21, ''grid'', ''light'') \<in>
     set (render_summary (new_events world0
            (snd (badge (upstream_with 21) world0 (request_limit ''o/r'' ''all'')))))"
    by (simp add: escalated_run)
  have p: "parseInt ''10'' = Some 10" by (simp add: parseInt_defs)
  note a = empty_result_is_404 [where up = "upstream_with 21" and w = world0
             and q = "request_limit ''o/r'' ''all''" and n = 21 and fs = "''grid''" and th = "''light''",
             THEN conjunct1, THEN mp, OF h]
  note rest = empty_result_is_404 [where up = "upstream_with 0" and w = world0
             and q = "request ''o/r''" and repo = "''o/r''" and k = 10,
             THEN conjunct2, THEN conjunct2, THEN conjunct2]
  have b1: "status (fst (badge (upstream_with 0) world0 (request ''o/r''))) = 404
      \<and> render_summary (new_events world0 (snd (badge (upstream_with 0) world0 (request ''o/r'')))) = []"
    by (rule rest [THEN conjunct1, THEN mp])
       (simp add: slash_count_def p empty_bounded_fetch)
  have b2: "status (fst (badge_all (upstream_with 0) world0 (request ''o/r''))) = 404
      \<and> render_summary (new_events world0 (snd (badge_all (upstream_with 0) world0 (request ''o/r'')))) = []"
    by (rule rest [THEN conjunct2, THEN conjunct1, THEN mp])
       (simp add: slash_count_def empty_unbounded_fetch)
  have b3: "status (fst (badge_fast (upstream_with 0) world0 (request_limit ''o/r'' ''all''))) = 404
      \<and> render_summary (new_events world0 (snd (badge_fast (upstream_with 0) world0 (request_limit ''o/r'' ''all'')))) = []"
    by (rule empty_result_is_404 [where up = "upstream_with 0" and w = world0
             and q = "request_limit ''o/r'' ''all''" and repo = "''o/r''",
             THEN conjunct2, THEN conjunct2, THEN conjunct2, THEN conjunct2, THEN conjunct2, THEN mp])
       (simp add: slash_count_def empty_unbounded_fetch)
  from h a b1 b2 b3 show ?thesis by simp
qed

subsection \<open>The grid layout\<close>

lemma ceil_div_bounds:
  assumes "0 < cols"
  shows "(n::nat) \<le> ((n + cols - 1) div cols) * cols" and "((n + cols - 1) div cols) * cols < n + cols"
proof -
  let ?q = "(n + cols - 1) div cols"
  have eq: "?q * cols + (n + cols - 1) mod cols = n + cols - 1" by simp
  have r: "(n + cols - 1) mod cols < cols" using assms by simp
  show "n \<le> ?q * cols" using eq r assms by linarith
  show "?q * cols < n + cols" using eq assms by linarith
qed

lemma grid_cols_bounds:
  shows "n \<le> grid_cols n * grid_cols n"
    and "0 < n \<Longrightarrow> (grid_cols n - 1) * (grid_cols n - 1) < n"
proof -
  let ?P = "\<lambda>c. c * c < n"
  let ?k = "length (takeWhile ?P [0..<n])"
  have kn: "?k \<le> n" using length_takeWhile_le [of ?P "[0..<n]"] by simp
  have below: "d * d < n" if d: "d < ?k" for d
  proof -
    have "takeWhile ?P [0..<n] ! d \<in> set (takeWhile ?P [0..<n])" using d by (rule nth_mem)
    then have "?P (takeWhile ?P [0..<n] ! d)" by (rule set_takeWhileD [THEN conjunct2])
    moreover have "takeWhile ?P [0..<n] ! d = [0..<n] ! d" using d by (rule takeWhile_nth)
    moreover have "[0..<n] ! d = d" using d kn by simp
    ultimately show ?thesis by simp
  qed
  show "n \<le> grid_cols n * grid_cols n"
  proof (cases "?k < n")
    case True
    then have "\<not> ?P ([0..<n] ! ?k)" by (intro nth_length_takeWhile) simp
    with True show ?thesis by (simp add: grid_cols_code)
  next
    case False
    with kn have "?k = n" by simp
    then show ?thesis by (cases n) (simp_all add: grid_cols_code)
  qed
  assume "0 < n"
  then have "0 < ?k" using grid_cols_pos [of n] by (simp add: grid_cols_code)
  then have "?k - 1 < ?k" by simp
  from below [OF this] show "(grid_cols n - 1) * (grid_cols n - 1) < n"
    by (simp add: grid_cols_code)
qed

lemma generateSVGBadge_grid:
  "generateSVGBadge cs ''grid'' theme =
     \<lparr>svg_width = grid_cols (length cs) * 70 + 12,
      svg_height = map_option (\<lambda>r. r * 74 + 12) (grid_rows (length cs) (grid_cols (length cs))),
      svg_colors = theme_palette theme,
      svg_clipPaths = length cs,
      svg_elements =
        map (\<lambda>index. element_at ((index mod grid_cols (length cs)) * 70 + 12)
                                 ((index div grid_cols (length cs)) * 74 + 12) (cs ! index))
            [0..<length cs]\<rparr>"
  by (simp add: generateSVGBadge_def Let_def avatarSize_def padding_def minItemWidth_def
        usernameHeight_def spacing_def)

text \<open>
  Claim C6. For a non-empty sequence of \<open>n\<close> contributors rendered with the grid layout,
  the column count is \<open>cols = ceil (sqrt n)\<close>, the least number whose square reaches \<open>n\<close>,
  and the row count is \<open>rows = ceil (n / cols)\<close>, the least number of rows of \<open>cols\<close> cells
  that hold \<open>n\<close> items. The document has one element per contributor, in order; element
  \<open>i\<close> stands in column \<open>i mod cols\<close> and row \<open>i div cols\<close>, its cell of 70 by 74 starting
  at \<open>(col * 70 + 12, row * 74 + 12)\<close>; the canvas is \<open>cols * 70 + 12\<close> wide and
  \<open>rows * 74 + 12\<close> high, and every cell lies inside it. For \<open>n = 1, 4, 5, 9, 13\<close> the
  pairs of columns and rows are \<open>(1, 1)\<close>, \<open>(2, 2)\<close>, \<open>(3, 2)\<close>, \<open>(3, 3)\<close>, \<open>(4, 4)\<close>.
\<close>

theorem grid_layout:
  "(contributors \<noteq> [] \<longrightarrow>
     (let n = length contributors;
          cols = nat \<lceil>sqrt (real n)\<rceil>;
          rows = nat \<lceil>real n / real cols\<rceil>;
          doc = generateSVGBadge contributors ''grid'' theme
      in 0 < cols \<and> (cols - 1) * (cols - 1) < n \<and> n \<le> cols * cols
         \<and> 0 < rows \<and> (rows - 1) * cols < n \<and> n \<le> rows * cols
         \<and> svg_width doc = cols * 70 + 12
         \<and> svg_height doc = Some (rows * 74 + 12)
         \<and> length (svg_elements doc) = n
         \<and> (\<forall>i<n. el_login (svg_elements doc ! i) = login (contributors ! i)
                  \<and> el_x (svg_elements doc ! i) = (i mod cols) * 70 + 12
                  \<and> el_y (svg_elements doc ! i) = (i div cols) * 74 + 12
                  \<and> el_x (svg_elements doc ! i) + 70 \<le> cols * 70 + 12
                  \<and> el_y (svg_elements doc ! i) + 74 \<le> rows * 74 + 12)))
   \<and> grid_cols 1 = 1 \<and> grid_rows 1 1 = Some 1
   \<and> grid_cols 4 = 2 \<and> grid_rows 4 2 = Some 2
   \<and> grid_cols 5 = 3 \<and> grid_rows 5 3 = Some 2
   \<and> grid_cols 9 = 3 \<and> grid_rows 9 3 = Some 3
   \<and> grid_cols 13 = 4 \<and> grid_rows 13 4 = Some 4"
proof (intro conjI impI)
  assume ne: "contributors \<noteq> []"
  define n where "n = length contributors"
  define cols where "cols = grid_cols n"
  define rows where "rows = (n + cols - 1) div cols"
  define doc where "doc = generateSVGBadge contributors ''grid'' theme"
  from ne have npos: "0 < n" by (simp add: n_def)
  then have cpos: "0 < cols" unfolding cols_def by (rule grid_cols_pos)
  have c: "nat \<lceil>sqrt (real n)\<rceil> = cols" by (simp add: cols_def grid_cols_def)
  have gr: "grid_rows n cols = Some rows" using cpos by (simp add: grid_rows_code rows_def)
  then have r: "nat \<lceil>real n / real cols\<rceil> = rows" using cpos by (simp add: grid_rows_def)
  have cb: "(cols - 1) * (cols - 1) < n" "n \<le> cols * cols"
    unfolding cols_def using grid_cols_bounds [of n] npos by auto
  have rb: "n \<le> rows * cols" "rows * cols < n + cols"
    unfolding rows_def using ceil_div_bounds [OF cpos, of n] by auto
  have rpos: "0 < rows" using rb(1) npos by (cases rows) simp_all
  have "(rows - 1) * cols = rows * cols - cols" by (simp add: diff_mult_distrib)
  with rb(2) npos have rlow: "(rows - 1) * cols < n" by linarith
  have d: "doc = \<lparr>svg_width = cols * 70 + 12,
      svg_height = Some (rows * 74 + 12),
      svg_colors = theme_palette theme,
      svg_clipPaths = n,
      svg_elements =
        map (\<lambda>index. element_at ((index mod cols) * 70 + 12) ((index div cols) * 74 + 12)
                        (contributors ! index)) [0..<n]\<rparr>"
    by (simp add: doc_def generateSVGBadge_grid n_def [symmetric] cols_def [symmetric] gr)
  have el: "el_login (svg_elements doc ! i) = login (contributors ! i)
                  \<and> el_x (svg_elements doc ! i) = (i mod cols) * 70 + 12
                  \<and> el_y (svg_elements doc ! i) = (i div cols) * 74 + 12
                  \<and> el_x (svg_elements doc ! i) + 70 \<le> cols * 70 + 12
                  \<and> el_y (svg_elements doc ! i) + 74 \<le> rows * 74 + 12" if i: "i < n" for i
  proof -
    have m: "i mod cols < cols" using cpos by simp
    have "i < rows * cols" using i rb(1) by simp
    then have dv: "i div cols < rows" using cpos by (simp add: less_mult_imp_div_less)
    from m have "(i mod cols) * 70 + 70 \<le> cols * 70" by linarith
    moreover from dv have "(i div cols) * 74 + 74 \<le> rows * 74" by linarith
    ultimately show ?thesis using i by (simp add: d element_at_def)
  qed
  show "let n = length contributors;
          cols = nat \<lceil>sqrt (real n)\<rceil>;
          rows = nat \<lceil>real n / real cols\<rceil>;
          doc = generateSVGBadge contributors ''grid'' theme
      in 0 < cols \<and> (cols - 1) * (cols - 1) < n \<and> n \<le> cols * cols
         \<and> 0 < rows \<and> (rows - 1) * cols < n \<and> n \<le> rows * cols
         \<and> svg_width doc = cols * 70 + 12
         \<and> svg_height doc = Some (rows * 74 + 12)
         \<and> length (svg_elements doc) = n
         \<and> (\<forall>i<n. el_login (svg_elements doc ! i) = login (contributors ! i)
                  \<and> el_x (svg_elements doc ! i) = (i mod cols) * 70 + 12
                  \<and> el_y (svg_elements doc ! i) = (i div cols) * 74 + 12
                  \<and> el_x (svg_elements doc ! i) + 70 \<le> cols * 70 + 12
                  \<and> el_y (svg_elements doc ! i) + 74 \<le> rows * 74 + 12)"
    unfolding Let_def n_def [symmetric] c r doc_def [symmetric]
    using cpos cb rpos rlow rb(1) el by (simp add: d element_at_def)
next
  show "grid_cols 1 = 1" "grid_rows 1 1 = Some 1" "grid_cols 4 = 2" "grid_rows 4 2 = Some 2"
    "grid_cols 5 = 3" "grid_rows 5 3 = Some 2" "grid_cols 9 = 3" "grid_rows 9 3 = Some 3"
    "grid_cols 13 = 4" "grid_rows 13 4 = Some 4"
    by code_simp+
qed


text \<open>The theorem at five contributors: 3 columns, 2 rows, the last item in cell (1, 1).\<close>

theorem grid_layout_witness:
  "five \<noteq> []
   \<and> svg_width (generateSVGBadge five ''grid'' ''light'') = 222
   \<and> svg_height (generateSVGBadge five ''grid'' ''light'') = Some 160
   \<and> length (svg_elements (generateSVGBadge five ''grid'' ''light'')) = 5
   \<and> el_x (svg_elements (generateSVGBadge five ''grid'' ''light'') ! 4) = 82
   \<and> el_y (svg_elements (generateSVGBadge five ''grid'' ''light'') ! 4) = 86"
proof -
  have ne: "five \<noteq> []" by (simp add: five_def)
  have n: "length five = 5" by (simp add: five_def)
  have "grid_cols 5 = 3" by code_simp
  then have c: "nat \<lceil>sqrt (real 5)\<rceil> = 3" by (simp add: grid_cols_def)
  have "grid_rows 5 3 = Some 2" by code_simp
  then have r: "nat \<lceil>real 5 / real 3\<rceil> = 2" by (simp add: grid_rows_def)
  from grid_layout [of five "''light''", THEN conjunct1, THEN mp, OF ne]
  have "svg_width (generateSVGBadge five ''grid'' ''light'') = 3 * 70 + 12
     \<and> svg_height (generateSVGBadge five ''grid'' ''light'') = Some (2 * 74 + 12)
     \<and> length (svg_elements (generateSVGBadge five ''grid'' ''light'')) = 5
     \<and> (\<forall>i<5. el_x (svg_elements (generateSVGBadge five ''grid'' ''light'') ! i) = (i mod 3) * 70 + 12
                \<and> el_y (svg_elements (generateSVGBadge five ''grid'' ''light'') ! i) = (i div 3) * 74 + 12)"
    unfolding Let_def n c r by simp
  then show ?thesis using ne by simp
qed

subsection \<open>Avatars that cannot be fetched\<close>

lemma length_colors: "length colors = 15"
  by (simp add: colors_def)

lemma svg_elements_avatar:
  "length (svg_elements (generateSVGBadge cs style theme)) = length cs"
  "i < length cs \<Longrightarrow>
     el_avatar (svg_elements (generateSVGBadge cs style theme) ! i) = avatarElement (cs ! i)"
  by (simp_all add: generateSVGBadge_def Let_def element_at_def)

lemma placeholder_of_record:
  "avatar_base64 (contributor_record c None i) = None"
  "avatarElement (contributor_record c None i) =
     AvatarFallback (colors ! (i mod 15)) (toUpperCase (charAt0 (raw_login c)))"
  by (simp_all add: contributor_record_def avatarElement_def generateAvatarPattern_def length_colors)

lemma data_uri_failed [simp]: "data_uri AvatarFailed = None"
  by (simp add: data_uri_def)

text \<open>
  The badge a handler sends for the contributors \<open>cs\<close> that a helper built from the
  upstream's list \<open>raws\<close> and stored under \<open>key\<close>: wherever the helper recorded no avatar,
  the element is the placeholder.
\<close>

lemma placeholders_sent:
  assumes len: "length cs = length raws"
      and stored: "cache w2 key = Some \<lparr>data = cs, timestamp = t\<rparr>"
      and failed: "\<And>i. i < length raws \<Longrightarrow> F i \<Longrightarrow> cs ! i = contributor_record (raws ! i) None i"
      and sent: "handler = send_badge cs style theme age w2"
  shows "\<exists>doc w' e. handler = (Svg age doc, w')
            \<and> length (svg_elements doc) = length raws
            \<and> cache w' key = Some e
            \<and> length (data e) = length raws
            \<and> (\<forall>i<length raws.
                  F i \<longrightarrow> avatar_base64 (data e ! i) = None
                      \<and> (\<exists>glyph.
                            el_avatar (svg_elements doc ! i) = AvatarFallback (colors ! (i mod 15)) glyph
                            \<and> (upper_in_latin1 (charAt0 (raw_login (raws ! i)))
                                 \<longrightarrow> glyph = toUpperCase (charAt0 (raw_login (raws ! i))))))"
proof -
  let ?doc = "generateSVGBadge cs style theme"
  let ?w' = "logged (Render cs style theme) w2"
  let ?e = "\<lparr>data = cs, timestamp = t\<rparr>"
  have "\<forall>i<length raws.
          F i \<longrightarrow> avatar_base64 (data ?e ! i) = None
              \<and> (\<exists>glyph.
                    el_avatar (svg_elements ?doc ! i) = AvatarFallback (colors ! (i mod 15)) glyph
                    \<and> (upper_in_latin1 (charAt0 (raw_login (raws ! i)))
                         \<longrightarrow> glyph = toUpperCase (charAt0 (raw_login (raws ! i)))))"
  proof (intro allI impI)
    fix i assume i: "i < length raws" and f: "F i"
    from failed [OF i f] i len
    show "avatar_base64 (data ?e ! i) = None
              \<and> (\<exists>glyph.
                    el_avatar (svg_elements ?doc ! i) = AvatarFallback (colors ! (i mod 15)) glyph
                    \<and> (upper_in_latin1 (charAt0 (raw_login (raws ! i)))
                         \<longrightarrow> glyph = toUpperCase (charAt0 (raw_login (raws ! i)))))"
      by (simp add: svg_elements_avatar placeholder_of_record)
  qed
  with len stored sent show ?thesis
    by (intro exI [of _ ?doc] exI [of _ ?w'] exI [of _ ?e])
       (simp add: svg_elements_avatar send_badge_def)
qed

text \<open>What the two helpers return and store after a miss, avatars enabled.\<close>

lemma bounded_fetch_records:
  assumes miss: "\<not> fresh w (cache w (contributors_cacheKey repo n True))"
      and api: "contributors_api up (Suc (length (trace w))) repo (min n 100) None = Inr raws"
  obtains cs w2 where "getContributors up w repo n True = (Inr cs, w2)"
      and "length cs = length raws"
      and "cache w2 (contributors_cacheKey repo n True) = Some \<lparr>data = cs, timestamp = now w2\<rparr>"
      and "\<And>i. i < length raws \<Longrightarrow>
             avatar_api up (length (trace w) + 2 + i) (raw_avatar_url (raws ! i)) = AvatarFailed \<Longrightarrow>
             cs ! i = contributor_record (raws ! i) None i"
proof -
  obtain r w2 where g: "getContributors up w repo n True = (r, w2)"
    by (cases "getContributors up w repo n True")
  from getContributors_miss [OF miss g] api
  obtain cs where cs: "r = Inr cs" "length cs = length raws"
      "cache w2 = (cache w)(contributors_cacheKey repo n True \<mapsto> \<lparr>data = cs, timestamp = now w2\<rparr>)"
      "\<forall>j < length raws. cs ! j =
          contributor_record (raws ! j)
            (if True then data_uri (avatar_api up (length (trace w) + 2 + j) (raw_avatar_url (raws ! j)))
             else None) j"
    by auto
  show thesis
  proof (rule that [of cs w2])
    show "getContributors up w repo n True = (Inr cs, w2)" using g cs(1) by simp
    show "length cs = length raws" by (rule cs(2))
    show "cache w2 (contributors_cacheKey repo n True) = Some \<lparr>data = cs, timestamp = now w2\<rparr>"
      by (simp add: cs(3))
    fix i assume "i < length raws"
      "avatar_api up (length (trace w) + 2 + i) (raw_avatar_url (raws ! i)) = AvatarFailed"
    with cs(4) show "cs ! i = contributor_record (raws ! i) None i" by simp
  qed
qed

lemma unbounded_fetch_records:
  assumes miss: "\<not> fresh w (cache w (all_cacheKey repo True))"
      and fp: "fetch_pages up repo 1 [] (logged (CacheGet (all_cacheKey repo True)) w) = (Inr raws, w1)"
  obtains cs w2 where "getAllContributors up w repo True = (Inr cs, w2)"
      and "length cs = length raws"
      and "cache w2 (all_cacheKey repo True) = Some \<lparr>data = cs, timestamp = now w2\<rparr>"
      and "\<And>i. i < length raws \<Longrightarrow>
             i < 50 \<and> avatar_api up (length (trace w1) + i) (raw_avatar_url (raws ! i)) = AvatarFailed \<Longrightarrow>
             cs ! i = contributor_record (raws ! i) None i"
proof -
  obtain r w2 where g: "getAllContributors up w repo True = (r, w2)"
    by (cases "getAllContributors up w repo True")
  from getAllContributors_miss [OF miss g] fp
  obtain cs where cs: "r = Inr cs" "length cs = length raws"
      "cache w2 = (cache w)(all_cacheKey repo True \<mapsto> \<lparr>data = cs, timestamp = now w2\<rparr>)"
      "\<forall>j < length raws. cs ! j =
          contributor_record (raws ! j)
            (if True \<and> j < 50
             then data_uri (avatar_api up (length (trace w1) + j) (raw_avatar_url (raws ! j)))
             else None) j"
    by auto
  show thesis
  proof (rule that [of cs w2])
    show "getAllContributors up w repo True = (Inr cs, w2)" using g cs(1) by simp
    show "length cs = length raws" by (rule cs(2))
    show "cache w2 (all_cacheKey repo True) = Some \<lparr>data = cs, timestamp = now w2\<rparr>"
      by (simp add: cs(3))
    fix i assume "i < length raws"
      "i < 50 \<and> avatar_api up (length (trace w1) + i) (raw_avatar_url (raws ! i)) = AvatarFailed"
    with cs(4) show "cs ! i = contributor_record (raws ! i) None i" by simp
  qed
qed

text \<open>
  Claim C7. Take a request with avatars enabled, no fresh cache entry, and an upstream
  that lists at least one contributor: a valid \<open>/badge\<close> request with a numeric limit (one
  bounded request), a valid \<open>/badge\<close> request with \<open>limit=all\<close>, or a \<open>/badge/all\<close> request
  (the pagination loop). Whatever the avatar requests answer, the response is the badge
  (status 200) with one element per listed contributor. For every contributor whose
  avatar request fails (the unbounded fetch requests the first 50 only), the record that
  is cached has no inlined avatar and the element drawn for it is the placeholder: a
  circle in the palette colour at the contributor's position modulo 15, under a glyph.
  The glyph is the capital of the first character of the handle. This is stated for every
  handle but those that begin with the micro sign or the y with diaeresis, whose capitals
  are no code units of the model. Colour and glyph depend on the position and the handle
  only.
\<close>

theorem avatar_failure_placeholder:
  "(q_repo q = Some repo \<and> slash_count repo = 1
      \<and> with_default ''horizontal'' (q_style q) \<in> {''horizontal'', ''grid''}
      \<and> with_default ''light'' (q_theme q) \<in> {''light'', ''dark''}
      \<and> with_default ''true'' (q_avatars q) \<noteq> ''false''
      \<and> with_default ''10'' (q_limit q) \<noteq> ''all''
      \<and> parseInt (with_default ''10'' (q_limit q)) = Some n \<and> 1 \<le> n \<and> n \<le> 100
      \<and> \<not> fresh w (cache w (contributors_cacheKey repo n True))
      \<and> contributors_api up (Suc (length (trace w))) repo (min n 100) None = Inr raws
      \<and> raws \<noteq> []
    \<longrightarrow> (\<exists>doc w' e. badge up w q = (Svg 300 doc, w')
            \<and> length (svg_elements doc) = length raws
            \<and> cache w' (contributors_cacheKey repo n True) = Some e
            \<and> length (data e) = length raws
            \<and> (\<forall>i<length raws.
                  avatar_api up (length (trace w) + 2 + i) (raw_avatar_url (raws ! i)) = AvatarFailed
                  \<longrightarrow> avatar_base64 (data e ! i) = None
                      \<and> (\<exists>glyph.
                            el_avatar (svg_elements doc ! i) = AvatarFallback (colors ! (i mod 15)) glyph
                            \<and> (upper_in_latin1 (charAt0 (raw_login (raws ! i)))
                                 \<longrightarrow> glyph = toUpperCase (charAt0 (raw_login (raws ! i))))))))
   \<and> (q_repo q = Some repo \<and> slash_count repo = 1
      \<and> with_default ''horizontal'' (q_style q) \<in> {''horizontal'', ''grid''}
      \<and> with_default ''light'' (q_theme q) \<in> {''light'', ''dark''}
      \<and> with_default ''true'' (q_avatars q) \<noteq> ''false''
      \<and> with_default ''10'' (q_limit q) = ''all''
      \<and> \<not> fresh w (cache w (all_cacheKey repo True))
      \<and> fetch_pages up repo 1 [] (logged (CacheGet (all_cacheKey repo True)) w) = (Inr raws, w1)
      \<and> raws \<noteq> []
    \<longrightarrow> (\<exists>doc w' e. badge up w q = (Svg 300 doc, w')
            \<and> length (svg_elements doc) = length raws
            \<and> cache w' (all_cacheKey repo True) = Some e
            \<and> length (data e) = length raws
            \<and> (\<forall>i<length raws.
                  i < 50
                  \<and> avatar_api up (length (trace w1) + i) (raw_avatar_url (raws ! i)) = AvatarFailed
                  \<longrightarrow> avatar_base64 (data e ! i) = None
                      \<and> (\<exists>glyph.
                            el_avatar (svg_elements doc ! i) = AvatarFallback (colors ! (i mod 15)) glyph
                            \<and> (upper_in_latin1 (charAt0 (raw_login (raws ! i)))
                                 \<longrightarrow> glyph = toUpperCase (charAt0 (raw_login (raws ! i))))))))
   \<and> (q_repo q = Some repo \<and> slash_count repo = 1
      \<and> with_default ''true'' (q_avatars q) \<noteq> ''false''
      \<and> \<not> fresh w (cache w (all_cacheKey repo True))
      \<and> fetch_pages up repo 1 [] (logged (CacheGet (all_cacheKey repo True)) w) = (Inr raws, w1)
      \<and> raws \<noteq> []
    \<longrightarrow> (\<exists>doc w' e. badge_all up w q = (Svg 3600 doc, w')
            \<and> length (svg_elements doc) = length raws
            \<and> cache w' (all_cacheKey repo True) = Some e
            \<and> length (data e) = length raws
            \<and> (\<forall>i<length raws.
                  i < 50
                  \<and> avatar_api up (length (trace w1) + i) (raw_avatar_url (raws ! i)) = AvatarFailed
                  \<longrightarrow> avatar_base64 (data e ! i) = None
                      \<and> (\<exists>glyph.
                            el_avatar (svg_elements doc ! i) = AvatarFallback (colors ! (i mod 15)) glyph
                            \<and> (upper_in_latin1 (charAt0 (raw_login (raws ! i)))
                                 \<longrightarrow> glyph = toUpperCase (charAt0 (raw_login (raws ! i))))))))"
proof (intro conjI impI)
  let ?style = "with_default ''horizontal'' (q_style q)"
  let ?theme = "with_default ''light'' (q_theme q)"
  assume a: "q_repo q = Some repo \<and> slash_count repo = 1
      \<and> ?style \<in> {''horizontal'', ''grid''}
      \<and> ?theme \<in> {''light'', ''dark''}
      \<and> with_default ''true'' (q_avatars q) \<noteq> ''false''
      \<and> with_default ''10'' (q_limit q) \<noteq> ''all''
      \<and> parseInt (with_default ''10'' (q_limit q)) = Some n \<and> 1 \<le> n \<and> n \<le> 100
      \<and> \<not> fresh w (cache w (contributors_cacheKey repo n True))
      \<and> contributors_api up (Suc (length (trace w))) repo (min n 100) None = Inr raws
      \<and> raws \<noteq> []"
  then have v: "q_repo q = Some repo" "slash_count repo = 1" "?style \<in> {''horizontal'', ''grid''}"
      "?theme \<in> {''light'', ''dark''}" "with_default ''10'' (q_limit q) \<noteq> ''all''"
      "parseInt (with_default ''10'' (q_limit q)) = Some n" "1 \<le> n" "n \<le> 100"
    and inc: "with_default ''true'' (q_avatars q) \<noteq> ''false''"
    and miss: "\<not> fresh w (cache w (contributors_cacheKey repo n True))"
    and api: "contributors_api up (Suc (length (trace w))) repo (min n 100) None = Inr raws"
    and ne: "raws \<noteq> []"
    by blast+
  from bounded_fetch_records [OF miss api]
  obtain cs w2 where cs: "getContributors up w repo n True = (Inr cs, w2)"
      "length cs = length raws"
      "cache w2 (contributors_cacheKey repo n True) = Some \<lparr>data = cs, timestamp = now w2\<rparr>"
      "\<And>i. i < length raws \<Longrightarrow>
             avatar_api up (length (trace w) + 2 + i) (raw_avatar_url (raws ! i)) = AvatarFailed \<Longrightarrow>
             cs ! i = contributor_record (raws ! i) None i"
    by blast
  from cs(2) ne have "cs \<noteq> []" by auto
  then have "badge up w q = send_badge cs ?style ?theme 300 w2"
    using cs(1) by (simp add: badge_bounded [OF v] inc)
  from placeholders_sent [OF cs(2) cs(3) cs(4) this]
  show "\<exists>doc w' e. badge up w q = (Svg 300 doc, w')
            \<and> length (svg_elements doc) = length raws
            \<and> cache w' (contributors_cacheKey repo n True) = Some e
            \<and> length (data e) = length raws
            \<and> (\<forall>i<length raws.
                  avatar_api up (length (trace w) + 2 + i) (raw_avatar_url (raws ! i)) = AvatarFailed
                  \<longrightarrow> avatar_base64 (data e ! i) = None
                      \<and> (\<exists>glyph.
                            el_avatar (svg_elements doc ! i) = AvatarFallback (colors ! (i mod 15)) glyph
                            \<and> (upper_in_latin1 (charAt0 (raw_login (raws ! i)))
                                 \<longrightarrow> glyph = toUpperCase (charAt0 (raw_login (raws ! i))))))"
    by simp
next
  let ?style = "with_default ''horizontal'' (q_style q)"
  let ?theme = "with_default ''light'' (q_theme q)"
  assume a: "q_repo q = Some repo \<and> slash_count repo = 1
      \<and> ?style \<in> {''horizontal'', ''grid''}
      \<and> ?theme \<in> {''light'', ''dark''}
      \<and> with_default ''true'' (q_avatars q) \<noteq> ''false''
      \<and> with_default ''10'' (q_limit q) = ''all''
      \<and> \<not> fresh w (cache w (all_cacheKey repo True))
      \<and> fetch_pages up repo 1 [] (logged (CacheGet (all_cacheKey repo True)) w) = (Inr raws, w1)
      \<and> raws \<noteq> []"
  then have v: "q_repo q = Some repo" "slash_count repo = 1" "?style \<in> {''horizontal'', ''grid''}"
      "?theme \<in> {''light'', ''dark''}" "with_default ''10'' (q_limit q) = ''all''"
    and inc: "with_default ''true'' (q_avatars q) \<noteq> ''false''"
    and miss: "\<not> fresh w (cache w (all_cacheKey repo True))"
    and fp: "fetch_pages up repo 1 [] (logged (CacheGet (all_cacheKey repo True)) w) = (Inr raws, w1)"
    and ne: "raws \<noteq> []"
    by blast+
  from unbounded_fetch_records [OF miss fp]
  obtain cs w2 where cs: "getAllContributors up w repo True = (Inr cs, w2)"
      "length cs = length raws"
      "cache w2 (all_cacheKey repo True) = Some \<lparr>data = cs, timestamp = now w2\<rparr>"
      "\<And>i. i < length raws \<Longrightarrow>
             i < 50 \<and> avatar_api up (length (trace w1) + i) (raw_avatar_url (raws ! i)) = AvatarFailed \<Longrightarrow>
             cs ! i = contributor_record (raws ! i) None i"
    by blast
  from cs(2) ne have "cs \<noteq> []" by auto
  then have "badge up w q =
      send_badge cs (if 20 < length cs \<and> ?style = ''horizontal'' then ''grid'' else ?style) ?theme 300 w2"
    using cs(1) by (simp add: badge_unbounded [OF v] inc)
  from placeholders_sent [OF cs(2) cs(3) cs(4) this]
  show "\<exists>doc w' e. badge up w q = (Svg 300 doc, w')
            \<and> length (svg_elements doc) = length raws
            \<and> cache w' (all_cacheKey repo True) = Some e
            \<and> length (data e) = length raws
            \<and> (\<forall>i<length raws.
                  i < 50
                  \<and> avatar_api up (length (trace w1) + i) (raw_avatar_url (raws ! i)) = AvatarFailed
                  \<longrightarrow> avatar_base64 (data e ! i) = None
                      \<and> (\<exists>glyph.
                            el_avatar (svg_elements doc ! i) = AvatarFallback (colors ! (i mod 15)) glyph
                            \<and> (upper_in_latin1 (charAt0 (raw_login (raws ! i)))
                                 \<longrightarrow> glyph = toUpperCase (charAt0 (raw_login (raws ! i))))))"
    by simp
next
  assume a: "q_repo q = Some repo \<and> slash_count repo = 1
      \<and> with_default ''true'' (q_avatars q) \<noteq> ''false''
      \<and> \<not> fresh w (cache w (all_cacheKey repo True))
      \<and> fetch_pages up repo 1 [] (logged (CacheGet (all_cacheKey repo True)) w) = (Inr raws, w1)
      \<and> raws \<noteq> []"
  then have v: "q_repo q = Some repo" "slash_count repo = 1"
    and inc: "with_default ''true'' (q_avatars q) \<noteq> ''false''"
    and miss: "\<not> fresh w (cache w (all_cacheKey repo True))"
    and fp: "fetch_pages up repo 1 [] (logged (CacheGet (all_cacheKey repo True)) w) = (Inr raws, w1)"
    and ne: "raws \<noteq> []"
    by blast+
  from unbounded_fetch_records [OF miss fp]
  obtain cs w2 where cs: "getAllContributors up w repo True = (Inr cs, w2)"
      "length cs = length raws"
      "cache w2 (all_cacheKey repo True) = Some \<lparr>data = cs, timestamp = now w2\<rparr>"
      "\<And>i. i < length raws \<Longrightarrow>
             i < 50 \<and> avatar_api up (length (trace w1) + i) (raw_avatar_url (raws ! i)) = AvatarFailed \<Longrightarrow>
             cs ! i = contributor_record (raws ! i) None i"
    by blast
  from cs(2) ne have "cs \<noteq> []" by auto
  then have "badge_all up w q =
      send_badge cs (if 20 < length cs then ''grid'' else with_default ''grid'' (q_style q))
        (with_default ''light'' (q_theme q)) 3600 w2"
    using cs(1) by (simp add: badge_all_fetch [OF v] inc)
  from placeholders_sent [OF cs(2) cs(3) cs(4) this]
  show "\<exists>doc w' e. badge_all up w q = (Svg 3600 doc, w')
            \<and> length (svg_elements doc) = length raws
            \<and> cache w' (all_cacheKey repo True) = Some e
            \<and> length (data e) = length raws
            \<and> (\<forall>i<length raws.
                  i < 50
                  \<and> avatar_api up (length (trace w1) + i) (raw_avatar_url (raws ! i)) = AvatarFailed
                  \<longrightarrow> avatar_base64 (data e ! i) = None
                      \<and> (\<exists>glyph.
                            el_avatar (svg_elements doc ! i) = AvatarFallback (colors ! (i mod 15)) glyph
                            \<and> (upper_in_latin1 (charAt0 (raw_login (raws ! i)))
                                 \<longrightarrow> glyph = toUpperCase (charAt0 (raw_login (raws ! i))))))"
    by simp
qed


lemma alice_placeholder:
  "colors ! Suc 0 = ''#4ECDC4''"
  "toUpperCase (charAt0 (raw_login alice)) = ''A''"
  "upper_in_latin1 (charAt0 (raw_login alice))"
  by (simp_all add: alice_def colors_def toUpperCase_def charAt0_def upper_char_def
        lower_letters_def capital_letters_def upper_in_latin1_def)

text \<open>
  The theorem at two contributors whose avatars cannot be fetched, for the default limit,
  for \<open>limit=all\<close> and for \<open>/badge/all\<close>: the second element is drawn in the second palette
  colour.
\<close>

theorem avatar_failure_placeholder_witness:
  "(\<exists>doc w' e. badge (upstream_with 2) world0 (request ''o/r'') = (Svg 300 doc, w')
        \<and> length (svg_elements doc) = 2
        \<and> cache w' (contributors_cacheKey ''o/r'' 10 True) = Some e
        \<and> avatar_base64 (data e ! 1) = None
        \<and> el_avatar (svg_elements doc ! 1) = AvatarFallback ''#4ECDC4'' ''A'')
   \<and> (\<exists>doc w' e. badge (upstream_with 2) world0 (request_limit ''o/r'' ''all'') = (Svg 300 doc, w')
        \<and> length (svg_elements doc) = 2
        \<and> cache w' (all_cacheKey ''o/r'' True) = Some e
        \<and> avatar_base64 (data e ! 1) = None
        \<and> el_avatar (svg_elements doc ! 1) = AvatarFallback ''#4ECDC4'' ''A'')
   \<and> (\<exists>doc w' e. badge_all (upstream_with 2) world0 (request ''o/r'') = (Svg 3600 doc, w')
        \<and> length (svg_elements doc) = 2
        \<and> cache w' (all_cacheKey ''o/r'' True) = Some e
        \<and> avatar_base64 (data e ! 1) = None
        \<and> el_avatar (svg_elements doc ! 1) = AvatarFallback ''#4ECDC4'' ''A'')"
proof (intro conjI)
  let ?up = "upstream_with 2"
  have p: "parseInt ''10'' = Some 10" by (simp add: parseInt_defs)
  have "\<exists>doc w' e. badge ?up world0 (request ''o/r'') = (Svg 300 doc, w')
            \<and> length (svg_elements doc) = length (replicate 2 alice)
            \<and> cache w' (contributors_cacheKey ''o/r'' 10 True) = Some e
            \<and> length (data e) = length (replicate 2 alice)
            \<and> (\<forall>i<length (replicate 2 alice).
                  avatar_api ?up (length (trace world0) + 2 + i) (raw_avatar_url (replicate 2 alice ! i))
                    = AvatarFailed
                  \<longrightarrow> avatar_base64 (data e ! i) = None
                      \<and> (\<exists>glyph.
                            el_avatar (svg_elements doc ! i) = AvatarFallback (colors ! (i mod 15)) glyph
                            \<and> (upper_in_latin1 (charAt0 (raw_login (replicate 2 alice ! i)))
                                 \<longrightarrow> glyph = toUpperCase (charAt0 (raw_login (replicate 2 alice ! i))))))"
    by (rule avatar_failure_placeholder [where up = ?up and w = world0 and q = "request ''o/r''"
          and repo = "''o/r''" and n = 10 and raws = "replicate 2 alice",
          THEN conjunct1, THEN mp])
       (simp add: slash_count_def p fresh_def)
  then obtain doc w' e where d: "badge ?up world0 (request ''o/r'') = (Svg 300 doc, w')"
      "length (svg_elements doc) = length (replicate 2 alice)"
      "cache w' (contributors_cacheKey ''o/r'' 10 True) = Some e"
      and el: "\<forall>i<length (replicate 2 alice).
                  avatar_api ?up (length (trace world0) + 2 + i) (raw_avatar_url (replicate 2 alice ! i))
                    = AvatarFailed
                  \<longrightarrow> avatar_base64 (data e ! i) = None
                      \<and> (\<exists>glyph.
                            el_avatar (svg_elements doc ! i) = AvatarFallback (colors ! (i mod 15)) glyph
                            \<and> (upper_in_latin1 (charAt0 (raw_login (replicate 2 alice ! i)))
                                 \<longrightarrow> glyph = toUpperCase (charAt0 (raw_login (replicate 2 alice ! i)))))"
    by blast
  from el [rule_format, of 1]
  have "avatar_base64 (data e ! 1) = None
      \<and> el_avatar (svg_elements doc ! 1) = AvatarFallback ''#4ECDC4'' ''A''"
    by (simp add: alice_placeholder)
  with d show "\<exists>doc w' e. badge ?up world0 (request ''o/r'') = (Svg 300 doc, w')
        \<and> length (svg_elements doc) = 2
        \<and> cache w' (contributors_cacheKey ''o/r'' 10 True) = Some e
        \<and> avatar_base64 (data e ! 1) = None
        \<and> el_avatar (svg_elements doc ! 1) = AvatarFallback ''#4ECDC4'' ''A''"
    by auto
next
  let ?up = "upstream_with 2"
  let ?w0 = "logged (CacheGet (all_cacheKey ''o/r'' True)) world0"
  let ?w1 = "snd (fetch_pages ?up ''o/r'' 1 [] ?w0)"
  have fp: "fetch_pages ?up ''o/r'' 1 [] ?w0 = (Inr (replicate 2 alice), ?w1)"
    using fetch_pages_upstream_with [of 2 "''o/r''" ?w0]
    by (cases "fetch_pages ?up ''o/r'' 1 [] ?w0") simp
  have "\<exists>doc w' e. badge ?up world0 (request_limit ''o/r'' ''all'') = (Svg 300 doc, w')
            \<and> length (svg_elements doc) = length (replicate 2 alice)
            \<and> cache w' (all_cacheKey ''o/r'' True) = Some e
            \<and> length (data e) = length (replicate 2 alice)
            \<and> (\<forall>i<length (replicate 2 alice).
                  i < 50
                  \<and> avatar_api ?up (length (trace ?w1) + i) (raw_avatar_url (replicate 2 alice ! i))
                    = AvatarFailed
                  \<longrightarrow> avatar_base64 (data e ! i) = None
                      \<and> (\<exists>glyph.
                            el_avatar (svg_elements doc ! i) = AvatarFallback (colors ! (i mod 15)) glyph
                            \<and> (upper_in_latin1 (charAt0 (raw_login (replicate 2 alice ! i)))
                                 \<longrightarrow> glyph = toUpperCase (charAt0 (raw_login (replicate 2 alice ! i))))))"
    by (rule avatar_failure_placeholder [where up = ?up and w = world0
          and q = "request_limit ''o/r'' ''all''" and repo = "''o/r''"
          and raws = "replicate 2 alice" and ?w1.0 = ?w1,
          THEN conjunct2, THEN conjunct1, THEN mp])
       (use fp in \<open>simp add: slash_count_def fresh_def\<close>)
  then obtain doc w' e where d: "badge ?up world0 (request_limit ''o/r'' ''all'') = (Svg 300 doc, w')"
      "length (svg_elements doc) = length (replicate 2 alice)"
      "cache w' (all_cacheKey ''o/r'' True) = Some e"
      and el: "\<forall>i<length (replicate 2 alice).
                  i < 50
                  \<and> avatar_api ?up (length (trace ?w1) + i) (raw_avatar_url (replicate 2 alice ! i))
                    = AvatarFailed
                  \<longrightarrow> avatar_base64 (data e ! i) = None
                      \<and> (\<exists>glyph.
                            el_avatar (svg_elements doc ! i) = AvatarFallback (colors ! (i mod 15)) glyph
                            \<and> (upper_in_latin1 (charAt0 (raw_login (replicate 2 alice ! i)))
                                 \<longrightarrow> glyph = toUpperCase (charAt0 (raw_login (replicate 2 alice ! i)))))"
    by blast
  from el [rule_format, of 1]
  have "avatar_base64 (data e ! 1) = None
      \<and> el_avatar (svg_elements doc ! 1) = AvatarFallback ''#4ECDC4'' ''A''"
    by (simp add: alice_placeholder)
  with d show "\<exists>doc w' e. badge ?up world0 (request_limit ''o/r'' ''all'') = (Svg 300 doc, w')
        \<and> length (svg_elements doc) = 2
        \<and> cache w' (all_cacheKey ''o/r'' True) = Some e
        \<and> avatar_base64 (data e ! 1) = None
        \<and> el_avatar (svg_elements doc ! 1) = AvatarFallback ''#4ECDC4'' ''A''"
    by auto
next
  let ?up = "upstream_with 2"
  let ?w0 = "logged (CacheGet (all_cacheKey ''o/r'' True)) world0"
  let ?w1 = "snd (fetch_pages ?up ''o/r'' 1 [] ?w0)"
  have fp: "fetch_pages ?up ''o/r'' 1 [] ?w0 = (Inr (replicate 2 alice), ?w1)"
    using fetch_pages_upstream_with [of 2 "''o/r''" ?w0]
    by (cases "fetch_pages ?up ''o/r'' 1 [] ?w0") simp
  have "\<exists>doc w' e. badge_all ?up world0 (request ''o/r'') = (Svg 3600 doc, w')
            \<and> length (svg_elements doc) = length (replicate 2 alice)
            \<and> cache w' (all_cacheKey ''o/r'' True) = Some e
            \<and> length (data e) = length (replicate 2 alice)
            \<and> (\<forall>i<length (replicate 2 alice).
                  i < 50
                  \<and> avatar_api ?up (length (trace ?w1) + i) (raw_avatar_url (replicate 2 alice ! i))
                    = AvatarFailed
                  \<longrightarrow> avatar_base64 (data e ! i) = None
                      \<and> (\<exists>glyph.
                            el_avatar (svg_elements doc ! i) = AvatarFallback (colors ! (i mod 15)) glyph
                            \<and> (upper_in_latin1 (charAt0 (raw_login (replicate 2 alice ! i)))
                                 \<longrightarrow> glyph = toUpperCase (charAt0 (raw_login (replicate 2 alice ! i))))))"
    by (rule avatar_failure_placeholder [where up = ?up and w = world0
          and q = "request ''o/r''" and repo = "''o/r''"
          and raws = "replicate 2 alice" and ?w1.0 = ?w1,
          THEN conjunct2, THEN conjunct2, THEN mp])
       (use fp in \<open>simp add: slash_count_def fresh_def\<close>)
  then obtain doc w' e where d: "badge_all ?up world0 (request ''o/r'') = (Svg 3600 doc, w')"
      "length (svg_elements doc) = length (replicate 2 alice)"
      "cache w' (all_cacheKey ''o/r'' True) = Some e"
      and el: "\<forall>i<length (replicate 2 alice).
                  i < 50
                  \<and> avatar_api ?up (length (trace ?w1) + i) (raw_avatar_url (replicate 2 alice ! i))
                    = AvatarFailed
                  \<longrightarrow> avatar_base64 (data e ! i) = None
                      \<and> (\<exists>glyph.
                            el_avatar (svg_elements doc ! i) = AvatarFallback (colors ! (i mod 15)) glyph
                            \<and> (upper_in_latin1 (charAt0 (raw_login (replicate 2 alice ! i)))
                                 \<longrightarrow> glyph = toUpperCase (charAt0 (raw_login (replicate 2 alice ! i)))))"
    by blast
  from el [rule_format, of 1]
  have "avatar_base64 (data e ! 1) = None
      \<and> el_avatar (svg_elements doc ! 1) = AvatarFallback ''#4ECDC4'' ''A''"
    by (simp add: alice_placeholder)
  with d show "\<exists>doc w' e. badge_all ?up world0 (request ''o/r'') = (Svg 3600 doc, w')
        \<and> length (svg_elements doc) = 2
        \<and> cache w' (all_cacheKey ''o/r'' True) = Some e
        \<and> avatar_base64 (data e ! 1) = None
        \<and> el_avatar (svg_elements doc ! 1) = AvatarFallback ''#4ECDC4'' ''A''"
    by auto
qed

end
